theory Spec2Isabelle
  imports Complex_Main "HOL-Library.Word"
begin

unbundle bit_operations_syntax

section \<open>You vs Everyone: the session integrity engine\<close>

text \<open>
  A shallow embedding of the engine of \<^verbatim>\<open>app.js\<close>: the day key, the daily seed
  and its generator, the leave rule watcher, the 24h challenge with its streak, and the
  Boss and Arena timers. The repository holds two builds of the file. The complete one
  (the build with the \<^verbatim>\<open>utcDayKey\<close> function) is the one embedded here; the other
  build differs in the day key (\<^verbatim>\<open>localDayKey\<close>) and in the dates it parses for
  the streak (local midnights), and these parts of it are embedded as well.

  Conventions. A JavaScript number that holds a count of milliseconds, minutes or days is
  an \<open>int\<close> (all such values stay far inside the range where doubles are exact). A
  \<^verbatim>\<open>Date\<close> is its time value, milliseconds since the epoch, an \<open>int\<close>. A value that
  may be \<^verbatim>\<open>null\<close> is an \<open>option\<close>, a value that may be \<^verbatim>\<open>NaN\<close> is an
  \<open>option\<close> too (\<open>None\<close> is \<^verbatim>\<open>NaN\<close>). One event handler reads the clock once:
  every handler takes the instant \<open>now\<close> at which it runs.
\<close>

subsection \<open>Numbers as text\<close>

text \<open>\<^verbatim>\<open>String(n)\<close> for an integer \<open>n\<close>, and \<^verbatim>\<open>padStart(w, "0")\<close>.\<close>

definition digit_char :: "nat \<Rightarrow> char" where
  "digit_char d = char_of (48 + d)"

fun dec_nat :: "nat \<Rightarrow> string" where
  "dec_nat n = (if n < 10 then [digit_char n] else dec_nat (n div 10) @ [digit_char (n mod 10)])"

declare dec_nat.simps [simp del]

definition String :: "int \<Rightarrow> string" where
  "String n = (if n < 0 then CHR ''-'' # dec_nat (nat (- n)) else dec_nat (nat n))"

definition padStart :: "nat \<Rightarrow> char \<Rightarrow> string \<Rightarrow> string" where
  "padStart w c s = replicate (w - length s) c @ s"

text \<open>\<^verbatim>\<open>const pad2 = (n) => String(n).padStart(2, "0")\<close>\<close>

definition pad2 :: "int \<Rightarrow> string" where
  "pad2 n = padStart 2 (CHR ''0'') (String n)"

text \<open>Reading decimal digits back: \<open>None\<close> when a character is not a digit.\<close>

definition is_digit :: "char \<Rightarrow> bool" where
  "is_digit c = (48 \<le> (of_char c :: nat) \<and> (of_char c :: nat) \<le> 57)"

definition digit_val :: "char \<Rightarrow> nat" where
  "digit_val c = of_char c - 48"

definition digits_val :: "string \<Rightarrow> nat" where
  "digits_val s = foldl (\<lambda>acc c. 10 * acc + digit_val c) 0 s"

definition parse_digits :: "string \<Rightarrow> nat option" where
  "parse_digits s = (if s \<noteq> [] \<and> list_all is_digit s then Some (digits_val s) else None)"

subsection \<open>Dates\<close>

text \<open>
  The day arithmetic of the language standard: \<open>Day\<close>, \<open>DayFromYear\<close>,
  \<open>YearFromTime\<close>, \<open>MonthFromTime\<close> (0 to 11), \<open>DateFromTime\<close> (1 to 31) and
  \<open>MakeDay\<close>. The standard defines \<open>YearFromTime t\<close> as the largest year \<open>y\<close> with
  \<open>DayFromYear y \<le> Day t\<close>; here it is found by a search inside the 400-year cycle
  that holds the day.
\<close>

definition msPerDay :: int where
  "msPerDay = 86400000"

definition Day :: "int \<Rightarrow> int" where
  "Day t = t div msPerDay"

definition DayFromYear :: "int \<Rightarrow> int" where
  "DayFromYear y = 365 * (y - 1970) + (y - 1969) div 4 - (y - 1901) div 100 + (y - 1601) div 400"

definition InLeapYear :: "int \<Rightarrow> bool" where
  "InLeapYear y = (y mod 4 = 0 \<and> (y mod 100 \<noteq> 0 \<or> y mod 400 = 0))"

primrec year_search :: "int \<Rightarrow> int \<Rightarrow> nat \<Rightarrow> int" where
  "year_search base d 0 = base"
| "year_search base d (Suc k) =
     (if DayFromYear (base + int (Suc k)) \<le> d then base + int (Suc k) else year_search base d k)"

definition YearFromDay :: "int \<Rightarrow> int" where
  "YearFromDay d = year_search (2000 + 400 * ((d - 10957) div 146097)) d 399"

definition YearFromTime :: "int \<Rightarrow> int" where
  "YearFromTime t = YearFromDay (Day t)"

definition DayWithinYear :: "int \<Rightarrow> int" where
  "DayWithinYear t = Day t - DayFromYear (YearFromTime t)"

text \<open>The first day of month \<open>m\<close> (0 to 11) inside a year; \<open>l\<close> is 1 in a leap year.\<close>

definition month_start :: "int \<Rightarrow> int \<Rightarrow> int" where
  "month_start l m =
     (if m = 0 then 0 else if m = 1 then 31 else if m = 2 then 59 + l
      else if m = 3 then 90 + l else if m = 4 then 120 + l else if m = 5 then 151 + l
      else if m = 6 then 181 + l else if m = 7 then 212 + l else if m = 8 then 243 + l
      else if m = 9 then 273 + l else if m = 10 then 304 + l else 334 + l)"

definition leap_days :: "int \<Rightarrow> int" where
  "leap_days y = (if InLeapYear y then 1 else 0)"

definition MonthFromTime :: "int \<Rightarrow> int" where
  "MonthFromTime t =
     (let l = leap_days (YearFromTime t); w = DayWithinYear t
      in if w < 31 then 0 else if w < 59 + l then 1 else if w < 90 + l then 2
         else if w < 120 + l then 3 else if w < 151 + l then 4 else if w < 181 + l then 5
         else if w < 212 + l then 6 else if w < 243 + l then 7 else if w < 273 + l then 8
         else if w < 304 + l then 9 else if w < 334 + l then 10 else 11)"

definition DateFromTime :: "int \<Rightarrow> int" where
  "DateFromTime t =
     DayWithinYear t - month_start (leap_days (YearFromTime t)) (MonthFromTime t) + 1"

definition DaysInMonth :: "int \<Rightarrow> int \<Rightarrow> int" where
  "DaysInMonth y m =
     (if m = 1 then 28 + leap_days y
      else if m = 3 \<or> m = 5 \<or> m = 8 \<or> m = 10 then 30 else 31)"

text \<open>\<open>MakeDay\<close> for a month 0 to 11 and a day of the month, both in range.\<close>

definition MakeDay :: "int \<Rightarrow> int \<Rightarrow> int \<Rightarrow> int" where
  "MakeDay y m dt = DayFromYear y + month_start (leap_days y) m + dt - 1"

text \<open>
  A client is its offset from UTC in milliseconds at the instant in question
  (\<open>LocalTZA\<close>); the local getters of a \<^verbatim>\<open>Date\<close> read the fields of \<open>t + tza\<close>.
\<close>

definition LocalTime :: "int \<Rightarrow> int \<Rightarrow> int" where
  "LocalTime tza t = t + tza"

definition getFullYear :: "int \<Rightarrow> int \<Rightarrow> int" where
  "getFullYear tza t = YearFromTime (LocalTime tza t)"

definition getMonth :: "int \<Rightarrow> int \<Rightarrow> int" where
  "getMonth tza t = MonthFromTime (LocalTime tza t)"

definition getDate :: "int \<Rightarrow> int \<Rightarrow> int" where
  "getDate tza t = DateFromTime (LocalTime tza t)"

text \<open>
  \<^verbatim>\<open>toISOString\<close>: the UTC fields, the year on four digits from 0 to 9999 and on a
  sign and six digits outside. Only the date part and the \<^verbatim>\<open>T\<close> are spelled out with
  the fields; the time of day follows.
\<close>

definition iso_year :: "int \<Rightarrow> string" where
  "iso_year y =
     (if 0 \<le> y \<and> y \<le> 9999 then padStart 4 (CHR ''0'') (String y)
      else (if y < 0 then CHR ''-'' else CHR ''+'') # padStart 6 (CHR ''0'') (String \<bar>y\<bar>))"

definition iso_time :: "int \<Rightarrow> string" where
  "iso_time t =
     (let ms = t mod msPerDay
      in pad2 (ms div 3600000) @ '':'' @ pad2 (ms div 60000 mod 60) @ '':''
           @ pad2 (ms div 1000 mod 60) @ ''.'' @ padStart 3 (CHR ''0'') (String (ms mod 1000))
           @ ''Z'')"

definition toISOString :: "int \<Rightarrow> string" where
  "toISOString t =
     iso_year (YearFromTime t) @ ''-'' @ pad2 (MonthFromTime t + 1) @ ''-''
       @ pad2 (DateFromTime t) @ ''T'' @ iso_time t"

text \<open>
  \<^verbatim>\<open>function utcDayKey(d = new Date()) { return d.toISOString().slice(0, 10); }\<close>

  The client's offset is an argument, as it is of every function that reads a
  \<^verbatim>\<open>Date\<close>; \<^verbatim>\<open>toISOString\<close> does not read it.
\<close>

definition utcDayKey :: "int \<Rightarrow> int \<Rightarrow> string" where
  "utcDayKey tza t = take 10 (toISOString t)"

text \<open>
  The other build:
  \<^verbatim>\<open>function localDayKey(d = new Date()) {
    // Stable per local date: YYYY-MM-DD
    return `${d.getFullYear()}-${pad2(d.getMonth() + 1)}-${pad2(d.getDate())}`; }\<close>
\<close>

definition localDayKey :: "int \<Rightarrow> int \<Rightarrow> string" where
  "localDayKey tza t =
     String (getFullYear tza t) @ ''-'' @ pad2 (getMonth tza t + 1) @ ''-'' @ pad2 (getDate tza t)"

text \<open>
  \<^verbatim>\<open>new Date(key + "T00:00:00Z")\<close>: the date-time format of the standard, for the
  strings this program builds (a four-digit year, a month, a day, then midnight UTC). The
  result is the time value, or \<open>None\<close> for an invalid date. Only this form is
  modelled: the standard's other forms (a year on a sign and six digits, a date without
  the day or the month) and the formats an implementation accepts besides are read as
  invalid here, so the function stands for the code on the keys the program wrote, and
  the properties below are about those.
\<close>

definition parse_date_utc :: "string \<Rightarrow> int option" where
  "parse_date_utc s =
     (if length s = 20 \<and> s ! 4 = CHR ''-'' \<and> s ! 7 = CHR ''-'' \<and> drop 10 s = ''T00:00:00Z''
      then (case (parse_digits (take 4 s), parse_digits (take 2 (drop 5 s)),
                  parse_digits (take 2 (drop 8 s))) of
              (Some y, Some m, Some d) \<Rightarrow>
                (if 1 \<le> m \<and> m \<le> 12 \<and> 1 \<le> d \<and> int d \<le> DaysInMonth (int y) (int m - 1)
                 then Some (MakeDay (int y) (int m - 1) (int d) * msPerDay)
                 else None)
            | _ \<Rightarrow> None)
      else None)"

text \<open>The instants whose UTC year is written on four digits: the years 0000 to 9999.\<close>

definition four_digit_year :: "int \<Rightarrow> bool" where
  "four_digit_year t = (- 62167219200000 \<le> t \<and> t \<le> 253402300799999)"

subsection \<open>The daily seed and its generator\<close>

text \<open>
  \<^verbatim>\<open>function hash32(str) {
    let h = 2166136261 >>> 0;
    for (let i = 0; i < str.length; i++) { h ^= str.charCodeAt(i); h = Math.imul(h, 16777619); }
    return h >>> 0; }\<close>

  The loop over the characters is a left fold; the 32-bit operations are those of
  \<open>32 word\<close>.
\<close>

type_synonym u32 = "32 word"

definition hash32 :: "string \<Rightarrow> u32" where
  "hash32 str = foldl (\<lambda>h c. (h XOR of_nat (of_char c)) * 16777619) 2166136261 str"

text \<open>
  \<^verbatim>\<open>function mulberry32(seed) {
    let a = seed >>> 0;
    return function () {
      a |= 0; a = (a + 0x6D2B79F5) | 0;
      let t = Math.imul(a ^ (a >>> 15), 1 | a);
      t ^= t + Math.imul(t ^ (t >>> 7), 61 | t);
      return ((t ^ (t >>> 14)) >>> 0) / 4294967296; }; }\<close>

  The closure's variable \<open>a\<close> is the generator's state: one call takes the state and
  returns the new state with the number drawn. The number is a 32-bit value over
  \<open>2 ^ 32\<close>, which a double holds exactly; it is a rational here.
\<close>

definition mulberry32_next :: "u32 \<Rightarrow> u32 \<times> rat" where
  "mulberry32_next a0 =
     (let a = a0 + 0x6D2B79F5;
          t = (a XOR drop_bit 15 a) * (1 OR a);
          t = t XOR (t + (t XOR drop_bit 7 t) * (61 OR t))
      in (a, of_int (uint (t XOR drop_bit 14 t)) / 4294967296))"

text \<open>The first \<open>n\<close> numbers a generator made from \<open>seed\<close> returns.\<close>

primrec mulberry32_seq :: "u32 \<Rightarrow> nat \<Rightarrow> rat list" where
  "mulberry32_seq a 0 = []"
| "mulberry32_seq a (Suc n) = (case mulberry32_next a of (a', x) \<Rightarrow> x # mulberry32_seq a' n)"

text \<open>
  \<^verbatim>\<open>function todaySeed(salt = "") { const key = utcDayKey(); return hash32(`yve:${key}:${salt}`); }\<close>
\<close>

definition todaySeed :: "int \<Rightarrow> int \<Rightarrow> string \<Rightarrow> u32" where
  "todaySeed tza now salt = hash32 (''yve:'' @ utcDayKey tza now @ '':'' @ salt)"

text \<open>
  \<^verbatim>\<open>function getTodaysChallenge() {
    const seed = todaySeed("challenge"); const rnd = mulberry32(seed);
    const idx = Math.floor(rnd() * DAILY_CHALLENGES.length); ... return { ...c, id: idx }; }\<close>

  The catalog has 12 entries; only the index is kept.
\<close>

definition DAILY_CHALLENGES_length :: int where
  "DAILY_CHALLENGES_length = 12"

definition getTodaysChallenge_id :: "int \<Rightarrow> int \<Rightarrow> int" where
  "getTodaysChallenge_id tza now =
     \<lfloor>snd (mulberry32_next (todaySeed tza now ''challenge'')) * of_int DAILY_CHALLENGES_length\<rfloor>"

text \<open>
  \<^verbatim>\<open>function getTodaysCrowdNumber() {
    const seed = todaySeed("crowd"); const rnd = mulberry32(seed);
    const base = 8000 + Math.floor(rnd() * 24000);
    const wiggle = Math.floor(rnd() * 1800);
    const n = base + wiggle; ... }\<close>
\<close>

definition getTodaysCrowdNumber :: "int \<Rightarrow> int \<Rightarrow> int" where
  "getTodaysCrowdNumber tza now =
     (case mulberry32_next (todaySeed tza now ''crowd'') of (a1, r1) \<Rightarrow>
        (case mulberry32_next a1 of (a2, r2) \<Rightarrow>
           8000 + \<lfloor>r1 * 24000\<rfloor> + \<lfloor>r2 * 1800\<rfloor>))"

subsection \<open>Persistent storage\<close>

text \<open>
  \<^verbatim>\<open>localStorage\<close>, one field for each key of \<^verbatim>\<open>LS\<close> the engine uses. The
  streak, the last streak day and the badge count are kept as the text that is stored;
  the values kept as JSON are the values themselves (\<open>None\<close> stands for a missing
  key and for text that \<^verbatim>\<open>loadJSON\<close> cannot read, which it turns into its
  fallback). Reads and writes succeed.
\<close>

datatype run_status = not_started | in_progress | completed | failed

record run_state =
  dayKey :: string
  state :: run_status
  startedAt :: "int option"
  resultAt :: "int option"
  challengeId :: int

record boss_entry =
  be_dayKey :: string
  be_task :: string
  be_minutes :: int
  be_ts :: int

record arena_entry =
  ae_dayKey :: string
  ae_minutes :: int
  ae_ts :: int
  ae_result :: string

record storage =
  ls_streak :: "string option"
  ls_lastStreakDay :: "string option"
  ls_todayState :: "run_state option"
  ls_bossHistory :: "boss_entry list"
  ls_arenaHistory :: "arena_entry list"
  ls_arenaBadges :: "string option"

subsection \<open>The engine's state\<close>

datatype rule_type = challenge24 | bossFight | focusArena

text \<open>
  \<^verbatim>\<open>Visibility.activeRule = { type, thresholdMs, awayStart: null, onTrigger }\<close>.
  Each caller of \<^verbatim>\<open>startLeaveRule\<close> passes its own fixed callback, so the rule's
  type stands for its \<^verbatim>\<open>onTrigger\<close>.
\<close>

record leave_rule =
  rtype :: rule_type
  thresholdMs :: int
  awayStart :: "int option"

text \<open>\<^verbatim>\<open>Boss\<close> and \<^verbatim>\<open>Arena\<close>; only \<^verbatim>\<open>Boss\<close> uses the task.\<close>

record timed_session =
  running :: bool
  totalMs :: int
  remainingMs :: int
  selectedMin :: int
  task :: string

text \<open>The client's offset from UTC is part of the environment the engine runs in.\<close>

record app =
  tza :: int
  activeRule :: "leave_rule option"
  Boss :: timed_session
  Arena :: timed_session
  LS :: storage

subsection \<open>Text stored as numbers\<close>

text \<open>
  \<^verbatim>\<open>parseInt(s, 10)\<close>: leading blanks, a sign, then the longest run of digits;
  \<open>None\<close> (\<^verbatim>\<open>NaN\<close>) when there is no digit. A character here is a code unit
  below 256, so the blanks are the space, the controls 9 to 13 and the no-break space 160.
  The result is the exact integer; \<^verbatim>\<open>parseInt\<close> returns the nearest double, which is
  the same number up to \<open>2 ^ 53\<close>. The properties below are about text the program
  itself stored.
\<close>

definition is_space :: "char \<Rightarrow> bool" where
  "is_space c =
     (c = CHR '' '' \<or> (9 \<le> (of_char c :: nat) \<and> (of_char c :: nat) \<le> 13)
      \<or> (of_char c :: nat) = 160)"

definition parseInt10 :: "string \<Rightarrow> int option" where
  "parseInt10 s =
     (let s1 = dropWhile is_space s;
          neg = (s1 \<noteq> [] \<and> hd s1 = CHR ''-'');
          s2 = (if s1 \<noteq> [] \<and> (hd s1 = CHR ''-'' \<or> hd s1 = CHR ''+'') then tl s1 else s1);
          ds = takeWhile is_digit s2
      in if ds = [] then None
         else Some (if neg then - int (digits_val ds) else int (digits_val ds)))"

text \<open>A string is falsy when it is \<^verbatim>\<open>null\<close> or empty, a number when it is 0.\<close>

definition truthy_str :: "string option \<Rightarrow> bool" where
  "truthy_str v = (case v of None \<Rightarrow> False | Some s \<Rightarrow> s \<noteq> [])"

definition truthy_num :: "int option \<Rightarrow> bool" where
  "truthy_num v = (case v of None \<Rightarrow> False | Some n \<Rightarrow> n \<noteq> 0)"

text \<open>
  \<^verbatim>\<open>function getStreak() {
    const n = parseInt(localStorage.getItem(LS.streak) || "0", 10);
    return isFinite(n) ? n : 0; }
  function setStreak(n) { localStorage.setItem(LS.streak, String(Math.max(0, n))); }\<close>
\<close>

definition getStreak :: "app \<Rightarrow> int" where
  "getStreak a =
     (case parseInt10 (if truthy_str (ls_streak (LS a)) then the (ls_streak (LS a)) else ''0'') of
        None \<Rightarrow> 0 | Some n \<Rightarrow> n)"

definition setStreak :: "int \<Rightarrow> app \<Rightarrow> app" where
  "setStreak n a = a\<lparr>LS := (LS a)\<lparr>ls_streak := Some (String (max 0 n))\<rparr>\<rparr>"

definition getArenaBadges :: "app \<Rightarrow> int" where
  "getArenaBadges a =
     (case parseInt10 (if truthy_str (ls_arenaBadges (LS a)) then the (ls_arenaBadges (LS a))
                       else ''0'') of
        None \<Rightarrow> 0 | Some n \<Rightarrow> n)"

definition setArenaBadges :: "int \<Rightarrow> app \<Rightarrow> app" where
  "setArenaBadges n a = a\<lparr>LS := (LS a)\<lparr>ls_arenaBadges := Some (String (max 0 n))\<rparr>\<rparr>"

subsection \<open>The 24h challenge state and the day rollover\<close>

text \<open>
  \<^verbatim>\<open>function getTodayChallengeState() {
    const dayKey = utcDayKey();
    const s = loadJSON(LS.todayState, null);
    if (!s || s.dayKey !== dayKey) {
      const fresh = { dayKey, state: "not_started", startedAt: null, resultAt: null,
                      challengeId: getTodaysChallenge().id };
      saveJSON(LS.todayState, fresh);
      return fresh; }
    return s; }\<close>

  The function returns the record and may write the store: the result is the pair.
\<close>

definition fresh_state :: "int \<Rightarrow> app \<Rightarrow> run_state" where
  "fresh_state now a =
     \<lparr>dayKey = utcDayKey (tza a) now, state = not_started, startedAt = None, resultAt = None,
      challengeId = getTodaysChallenge_id (tza a) now\<rparr>"

definition saveTodayState :: "run_state \<Rightarrow> app \<Rightarrow> app" where
  "saveTodayState s a = a\<lparr>LS := (LS a)\<lparr>ls_todayState := Some s\<rparr>\<rparr>"

definition getTodayChallengeState :: "int \<Rightarrow> app \<Rightarrow> run_state \<times> app" where
  "getTodayChallengeState now a =
     (case ls_todayState (LS a) of
        None \<Rightarrow> (fresh_state now a, saveTodayState (fresh_state now a) a)
      | Some s \<Rightarrow>
          if dayKey s \<noteq> utcDayKey (tza a) now
          then (fresh_state now a, saveTodayState (fresh_state now a) a)
          else (s, a))"

text \<open>
  \<^verbatim>\<open>function setTodayChallengeState(patch) {
    const cur = getTodayChallengeState();
    const next = { ...cur, ...patch };
    saveJSON(LS.todayState, next);
    return next; }\<close>

  A patch is the update it makes to the record.
\<close>

definition setTodayChallengeState :: "int \<Rightarrow> (run_state \<Rightarrow> run_state) \<Rightarrow> app \<Rightarrow> run_state \<times> app" where
  "setTodayChallengeState now patch a =
     (case getTodayChallengeState now a of (cur, a1) \<Rightarrow> (patch cur, saveTodayState (patch cur) a1))"

text \<open>
  \<^verbatim>\<open>const diffDays = Math.floor((todayDate - lastDate) / (24 * 3600 * 1000));\<close>
  with \<^verbatim>\<open>lastDate = new Date(last + "T00:00:00Z")\<close> and the same for today;
  \<open>None\<close> when one of the two dates is invalid.
\<close>

definition diffDays :: "string \<Rightarrow> string \<Rightarrow> int option" where
  "diffDays last_day today =
     (case (parse_date_utc (last_day @ ''T00:00:00Z''), parse_date_utc (today @ ''T00:00:00Z'')) of
        (Some lastDate, Some todayDate) \<Rightarrow> Some ((todayDate - lastDate) div (24 * 3600 * 1000))
      | _ \<Rightarrow> None)"

text \<open>
  \<^verbatim>\<open>function reconcileStreakForNewDay() {
    const today = utcDayKey();
    const last = localStorage.getItem(LS.lastStreakDay);
    if (!last) return;
    ... if (diffDays >= 2) { setStreak(0); toast(...); } }\<close>
\<close>

definition reconcileStreakForNewDay :: "int \<Rightarrow> app \<Rightarrow> app" where
  "reconcileStreakForNewDay now a =
     (let today = utcDayKey (tza a) now; last_day = ls_lastStreakDay (LS a)
      in if \<not> truthy_str last_day then a
         else (case diffDays (the last_day) today of
                 None \<Rightarrow> a
               | Some n \<Rightarrow> if n \<ge> 2 then setStreak 0 a else a))"

subsection \<open>The leave rule\<close>

definition startLeaveRule :: "rule_type \<Rightarrow> int \<Rightarrow> app \<Rightarrow> app" where
  "startLeaveRule ty th a =
     a\<lparr>activeRule := Some \<lparr>rtype = ty, thresholdMs = th, awayStart = None\<rparr>\<rparr>"

definition stopLeaveRule :: "app \<Rightarrow> app" where
  "stopLeaveRule a = a\<lparr>activeRule := None\<rparr>"

subsection \<open>Mode 1: the 24h challenge\<close>

text \<open>
  The handlers below are the code that runs on the click (for a start, the click that
  confirms the rule check), up to the state it leaves; the toasts, the drawing and the
  remote mirror are left out. The drawing reads the challenge state through
  \<^verbatim>\<open>getTodayChallengeState\<close> after the handler has read it at the same instant.

  \<^verbatim>\<open>setTodayChallengeState({ state: "in_progress", startedAt: Date.now(),
                                   challengeId: c.id, resultAt: null });
  startLeaveRule({ type: "challenge24", thresholdMs: 15000, onTrigger: ... });\<close>
\<close>

definition joinChallenge :: "int \<Rightarrow> app \<Rightarrow> app" where
  "joinChallenge now a =
     startLeaveRule challenge24 15000
       (snd (setTodayChallengeState now
               (\<lambda>r. r\<lparr>state := in_progress, startedAt := Some now,
                      challengeId := getTodaysChallenge_id (tza a) now, resultAt := None\<rparr>) a))"

text \<open>
  The streak part of \<^verbatim>\<open>completeChallenge\<close>:

  \<^verbatim>\<open>const today = utcDayKey();
  const last = localStorage.getItem(LS.lastStreakDay);
  let streak = getStreak();
  if (last !== today) {
    if (last) { ... if (diffDays === 1) streak += 1; else streak = 1; }
    else { streak = 1; }
    setStreak(streak);
    localStorage.setItem(LS.lastStreakDay, today); }\<close>
\<close>

definition recordCompletion :: "string \<Rightarrow> app \<Rightarrow> app" where
  "recordCompletion today a =
     (let last_day = ls_lastStreakDay (LS a); streak = getStreak a
      in if last_day \<noteq> Some today
         then (let streak' =
                     (if truthy_str last_day
                      then (if diffDays (the last_day) today = Some 1 then streak + 1 else 1)
                      else 1);
                   a1 = setStreak streak' a
               in a1\<lparr>LS := (LS a1)\<lparr>ls_lastStreakDay := Some today\<rparr>\<rparr>)
         else a)"

text \<open>
  \<^verbatim>\<open>async function completeChallenge() {
    const st = getTodayChallengeState();
    if (st.state !== "in_progress") return;
    stopLeaveRule();
    ... the streak part ...
    setTodayChallengeState({ state: "completed", resultAt: Date.now() }); ... }\<close>
\<close>

definition completeChallenge :: "int \<Rightarrow> app \<Rightarrow> app" where
  "completeChallenge now a =
     (case getTodayChallengeState now a of (st, a1) \<Rightarrow>
        if state st \<noteq> in_progress then a1
        else snd (setTodayChallengeState now (\<lambda>r. r\<lparr>state := completed, resultAt := Some now\<rparr>)
                    (recordCompletion (utcDayKey (tza a) now) (stopLeaveRule a1))))"

text \<open>
  \<^verbatim>\<open>async function failChallenge(reason = "Failed.") {
    const st = getTodayChallengeState();
    if (st.state !== "in_progress") return;
    stopLeaveRule();
    setTodayChallengeState({ state: "failed", resultAt: Date.now() }); ... }\<close>
\<close>

definition failChallenge :: "int \<Rightarrow> app \<Rightarrow> app" where
  "failChallenge now a =
     (case getTodayChallengeState now a of (st, a1) \<Rightarrow>
        if state st \<noteq> in_progress then a1
        else snd (setTodayChallengeState now (\<lambda>r. r\<lparr>state := failed, resultAt := Some now\<rparr>)
                    (stopLeaveRule a1)))"

subsection \<open>Mode 2: the boss fight\<close>

definition minutesToMs :: "int \<Rightarrow> int" where
  "minutesToMs m = m * 60 * 1000"

text \<open>
  \<^verbatim>\<open>function bossSetDuration(min) {
    Boss.selectedMin = min; Boss.totalMs = minutesToMs(min); Boss.remainingMs = minutesToMs(min); ... }\<close>
\<close>

definition bossSetDuration :: "int \<Rightarrow> app \<Rightarrow> app" where
  "bossSetDuration m a =
     a\<lparr>Boss := (Boss a)\<lparr>selectedMin := m, totalMs := minutesToMs m, remainingMs := minutesToMs m\<rparr>\<rparr>"

text \<open>
  The preset buttons: \<^verbatim>\<open>if (Boss.running) return toast(...); ...
  bossSetDuration(parseInt(btn.getAttribute("data-min"), 10));\<close>
\<close>

definition bossPreset :: "int \<Rightarrow> app \<Rightarrow> app" where
  "bossPreset m a = (if running (Boss a) then a else bossSetDuration m a)"

text \<open>
  \<^verbatim>\<open>bossStart\<close>, with the trimmed text of the task field as its argument:

  \<^verbatim>\<open>if (!task) { toast(...); return; }
  ... Boss.task = task; Boss.running = true; ...
  startLeaveRule({ type: "bossFight", thresholdMs: 15000, onTrigger: ... });
  Boss.tick = setInterval(...);\<close>
\<close>

definition bossStart :: "string \<Rightarrow> app \<Rightarrow> app" where
  "bossStart tk a =
     (if tk = [] then a
      else startLeaveRule bossFight 15000 (a\<lparr>Boss := (Boss a)\<lparr>task := tk, running := True\<rparr>\<rparr>))"

text \<open>
  \<^verbatim>\<open>async function bossStop(reason = "Stopped.") {
    if (!Boss.running) return;
    Boss.running = false; clearInterval(Boss.tick); Boss.tick = null; stopLeaveRule(); ... }\<close>
\<close>

definition bossStop :: "app \<Rightarrow> app" where
  "bossStop a =
     (if \<not> running (Boss a) then a
      else stopLeaveRule (a\<lparr>Boss := (Boss a)\<lparr>running := False\<rparr>\<rparr>))"

text \<open>
  \<^verbatim>\<open>async function bossVictory() {
    await bossStop("Victory.");
    const list = loadJSON(LS.bossHistory, []);
    const entry = { dayKey: utcDayKey(), task: Boss.task, minutes: Boss.selectedMin, ts: Date.now() };
    list.unshift(entry);
    saveJSON(LS.bossHistory, list.slice(0, 20)); ... }\<close>
\<close>

definition bossVictory :: "int \<Rightarrow> app \<Rightarrow> app" where
  "bossVictory now a =
     (let a1 = bossStop a;
          entry = \<lparr>be_dayKey = utcDayKey (tza a1) now, be_task = task (Boss a1),
                   be_minutes = selectedMin (Boss a1), be_ts = now\<rparr>
      in a1\<lparr>LS := (LS a1)\<lparr>ls_bossHistory := take 20 (entry # ls_bossHistory (LS a1))\<rparr>\<rparr>)"

text \<open>
  The interval callback:

  \<^verbatim>\<open>if (!Boss.running) return;
  Boss.remainingMs -= 1000;
  if (Boss.remainingMs < 0) Boss.remainingMs = 0;
  ... if (Boss.remainingMs === 0) bossVictory();\<close>
\<close>

definition bossTick :: "int \<Rightarrow> app \<Rightarrow> app" where
  "bossTick now a =
     (if \<not> running (Boss a) then a
      else (let r = remainingMs (Boss a) - 1000;
                r' = (if r < 0 then 0 else r);
                a1 = a\<lparr>Boss := (Boss a)\<lparr>remainingMs := r'\<rparr>\<rparr>
            in if r' = 0 then bossVictory now a1 else a1))"

text \<open>
  The boss's \<^verbatim>\<open>onTrigger\<close>:

  \<^verbatim>\<open>const healMs = Math.floor(Boss.totalMs * 0.20);
  Boss.remainingMs = Math.min(Boss.totalMs, Boss.remainingMs + healMs);\<close>

  \<^verbatim>\<open>Boss.totalMs\<close> is a whole number of minutes in milliseconds, a multiple of 5; for
  such a number the double product with \<^verbatim>\<open>0.20\<close> and its floor are the fifth.
\<close>

definition bossHeal :: "app \<Rightarrow> app" where
  "bossHeal a =
     (let healMs = totalMs (Boss a) div 5
      in a\<lparr>Boss := (Boss a)\<lparr>remainingMs := min (totalMs (Boss a)) (remainingMs (Boss a) + healMs)\<rparr>\<rparr>)"

subsection \<open>Mode 3: the focus arena\<close>

definition arenaSetDuration :: "int \<Rightarrow> app \<Rightarrow> app" where
  "arenaSetDuration m a =
     a\<lparr>Arena := (Arena a)\<lparr>selectedMin := m, totalMs := minutesToMs m, remainingMs := minutesToMs m\<rparr>\<rparr>"

definition arenaPreset :: "int \<Rightarrow> app \<Rightarrow> app" where
  "arenaPreset m a = (if running (Arena a) then a else arenaSetDuration m a)"

text \<open>
  \<^verbatim>\<open>Arena.running = true; ...
  startLeaveRule({ type: "focusArena", thresholdMs: 15000, onTrigger: ... });
  Arena.tick = setInterval(...);\<close>
\<close>

definition arenaStart :: "app \<Rightarrow> app" where
  "arenaStart a = startLeaveRule focusArena 15000 (a\<lparr>Arena := (Arena a)\<lparr>running := True\<rparr>\<rparr>)"

definition arenaStop :: "app \<Rightarrow> app" where
  "arenaStop a =
     (if \<not> running (Arena a) then a
      else stopLeaveRule (a\<lparr>Arena := (Arena a)\<lparr>running := False\<rparr>\<rparr>))"

definition arena_history_add :: "int \<Rightarrow> string \<Rightarrow> app \<Rightarrow> app" where
  "arena_history_add now res a =
     (let entry = \<lparr>ae_dayKey = utcDayKey (tza a) now, ae_minutes = selectedMin (Arena a),
                   ae_ts = now, ae_result = res\<rparr>
      in a\<lparr>LS := (LS a)\<lparr>ls_arenaHistory := take 30 (entry # ls_arenaHistory (LS a))\<rparr>\<rparr>)"

text \<open>
  \<^verbatim>\<open>async function arenaVictory() {
    await arenaStop("Session cleared.");
    const b = getArenaBadges() + 1; setArenaBadges(b); ...
    ... entry = { ..., result: "cleared" }; list.unshift(entry);
    saveJSON(LS.arenaHistory, list.slice(0, 30)); ... }\<close>
\<close>

definition arenaVictory :: "int \<Rightarrow> app \<Rightarrow> app" where
  "arenaVictory now a =
     (let a1 = arenaStop a; a2 = setArenaBadges (getArenaBadges a1 + 1) a1
      in arena_history_add now ''cleared'' a2)"

text \<open>
  \<^verbatim>\<open>async function arenaFail(reason = "Failed.") {
    if (!Arena.running) return;
    await arenaStop("Failed."); ... entry = { ..., result: "failed" }; ... }\<close>
\<close>

definition arenaFail :: "int \<Rightarrow> app \<Rightarrow> app" where
  "arenaFail now a =
     (if \<not> running (Arena a) then a else arena_history_add now ''failed'' (arenaStop a))"

definition arenaTick :: "int \<Rightarrow> app \<Rightarrow> app" where
  "arenaTick now a =
     (if \<not> running (Arena a) then a
      else (let r = remainingMs (Arena a) - 1000;
                r' = (if r < 0 then 0 else r);
                a1 = a\<lparr>Arena := (Arena a)\<lparr>remainingMs := r'\<rparr>\<rparr>
            in if r' = 0 then arenaVictory now a1 else a1))"

subsection \<open>The visibility watcher\<close>

text \<open>
  The callback a rule holds, by the rule's type: the challenge and the arena fail, the
  boss heals.
\<close>

definition onTrigger :: "rule_type \<Rightarrow> int \<Rightarrow> int \<Rightarrow> app \<Rightarrow> app" where
  "onTrigger ty awayMs now a =
     (case ty of
        challenge24 \<Rightarrow> failChallenge now a
      | bossFight \<Rightarrow> bossHeal a
      | focusArena \<Rightarrow> arenaFail now a)"

text \<open>
  \<^verbatim>\<open>function checkBack() {
    const rule = Visibility.activeRule;
    if (!rule || !rule.awayStart) return;
    const awayMs = Date.now() - rule.awayStart;
    rule.awayStart = null;
    if (awayMs >= rule.thresholdMs) rule.onTrigger({ awayMs }); }\<close>

  \<open>fired\<close> is the argument \<^verbatim>\<open>checkBack\<close> calls the callback with at this instant,
  \<open>None\<close> when it does not call it; \<open>checkBack\<close> is the state it leaves.
\<close>

definition fired :: "int \<Rightarrow> app \<Rightarrow> int option" where
  "fired now a =
     (case activeRule a of
        None \<Rightarrow> None
      | Some rule \<Rightarrow>
          if \<not> truthy_num (awayStart rule) then None
          else (let awayMs = now - the (awayStart rule)
                in if awayMs \<ge> thresholdMs rule then Some awayMs else None))"

definition checkBack :: "int \<Rightarrow> app \<Rightarrow> app" where
  "checkBack now a =
     (case activeRule a of
        None \<Rightarrow> a
      | Some rule \<Rightarrow>
          if \<not> truthy_num (awayStart rule) then a
          else (let awayMs = now - the (awayStart rule);
                    a1 = a\<lparr>activeRule := Some (rule\<lparr>awayStart := None\<rparr>)\<rparr>
                in if awayMs \<ge> thresholdMs rule then onTrigger (rtype rule) awayMs now a1 else a1))"

text \<open>
  \<^verbatim>\<open>document.addEventListener("visibilitychange", () => {
    const rule = Visibility.activeRule;
    if (!rule) return;
    if (document.hidden) rule.awayStart = Date.now();
    else checkBack(); });\<close>
\<close>

definition on_visibilitychange :: "bool \<Rightarrow> int \<Rightarrow> app \<Rightarrow> app" where
  "on_visibilitychange hidden now a =
     (case activeRule a of
        None \<Rightarrow> a
      | Some rule \<Rightarrow>
          if hidden then a\<lparr>activeRule := Some (rule\<lparr>awayStart := Some now\<rparr>)\<rparr>
          else checkBack now a)"

text \<open>
  \<^verbatim>\<open>window.addEventListener("blur", () => {
    const rule = Visibility.activeRule;
    if (!rule) return;
    if (!rule.awayStart) rule.awayStart = Date.now(); });
  window.addEventListener("focus", checkBack);\<close>
\<close>

definition on_blur :: "int \<Rightarrow> app \<Rightarrow> app" where
  "on_blur now a =
     (case activeRule a of
        None \<Rightarrow> a
      | Some rule \<Rightarrow>
          if \<not> truthy_num (awayStart rule)
          then a\<lparr>activeRule := Some (rule\<lparr>awayStart := Some now\<rparr>)\<rparr>
          else a)"

definition on_focus :: "int \<Rightarrow> app \<Rightarrow> app" where
  "on_focus now a = checkBack now a"

subsection \<open>Events and runs\<close>

datatype event =
    VisibilityChange bool
  | Blur
  | Focus
  | JoinChallenge
  | CompleteChallenge
  | FailChallenge
  | BossPreset int
  | BossStart string
  | BossStop
  | BossTick
  | ArenaPreset int
  | ArenaStart
  | ArenaStop
  | ArenaTick

fun step :: "app \<Rightarrow> int \<times> event \<Rightarrow> app" where
  "step a (now, VisibilityChange hidden) = on_visibilitychange hidden now a"
| "step a (now, Blur) = on_blur now a"
| "step a (now, Focus) = on_focus now a"
| "step a (now, JoinChallenge) = joinChallenge now a"
| "step a (now, CompleteChallenge) = completeChallenge now a"
| "step a (now, FailChallenge) = failChallenge now a"
| "step a (now, BossPreset m) = bossPreset m a"
| "step a (now, BossStart tk) = bossStart tk a"
| "step a (now, BossStop) = bossStop a"
| "step a (now, BossTick) = bossTick now a"
| "step a (now, ArenaPreset m) = arenaPreset m a"
| "step a (now, ArenaStart) = arenaStart a"
| "step a (now, ArenaStop) = arenaStop a"
| "step a (now, ArenaTick) = arenaTick now a"

definition run :: "app \<Rightarrow> (int \<times> event) list \<Rightarrow> app" where
  "run a evs = foldl step a evs"

text \<open>
  The state the module starts in, and \<^verbatim>\<open>boot\<close>: the streak is reconciled, the two
  durations are set to 25 minutes, and the hub is drawn, which reads the challenge state.
\<close>

definition initial_session :: timed_session where
  "initial_session =
     \<lparr>running = False, totalMs = minutesToMs 25, remainingMs = minutesToMs 25, selectedMin = 25,
      task = []\<rparr>"

definition boot :: "int \<Rightarrow> int \<Rightarrow> storage \<Rightarrow> app" where
  "boot z now ls =
     (let a0 = \<lparr>tza = z, activeRule = None, Boss = initial_session, Arena = initial_session,
                LS = ls\<rparr>;
          a1 = reconcileStreakForNewDay now a0;
          a2 = arenaSetDuration 25 (bossSetDuration 25 a1)
      in snd (getTodayChallengeState now a2))"

text \<open>The preset durations an event list selects.\<close>

fun preset_minutes :: "event \<Rightarrow> int option" where
  "preset_minutes (BossPreset m) = Some m"
| "preset_minutes (ArenaPreset m) = Some m"
| "preset_minutes _ = None"

definition presets_ok :: "(int \<times> event) list \<Rightarrow> bool" where
  "presets_ok evs = list_all (\<lambda>(now, e). case preset_minutes e of None \<Rightarrow> True | Some m \<Rightarrow> 0 \<le> m) evs"

definition session_ok :: "timed_session \<Rightarrow> bool" where
  "session_ok s = (0 \<le> remainingMs s \<and> remainingMs s \<le> totalMs s)"

subsection \<open>The build that keys the day to the local date\<close>

text \<open>
  \<^verbatim>\<open>app.js\<close> has the same handlers with \<^verbatim>\<open>localDayKey\<close> in place of
  \<^verbatim>\<open>utcDayKey\<close> and with dates parsed without the final \<^verbatim>\<open>Z\<close>, as local
  times. Its streak code is embedded here; \<^verbatim>\<open>loadJSON\<close> and \<^verbatim>\<open>saveJSON\<close>,
  which it calls and does not define, are those of the other build.

  A time zone gives the offset from UTC in milliseconds, for an instant (\<open>LocalTZA\<close> of
  a UTC time, which the getters of a \<^verbatim>\<open>Date\<close> use) and for a local time
  (\<open>LocalTZA\<close> of a local time, which the parse of a local date uses).
\<close>

record zone =
  offset_at_utc :: "int \<Rightarrow> int"
  offset_at_local :: "int \<Rightarrow> int"

text \<open>
  America/New\_York in 2024: five hours behind UTC, four from 10 March, 07:00 UTC (local
  clocks go from 02:00 to 03:00) to 3 November, 06:00 UTC (from 02:00 back to 01:00).
\<close>

definition new_york :: zone where
  "new_york =
     \<lparr>offset_at_utc = (\<lambda>t. if 1710054000000 \<le> t \<and> t < 1730613600000
                             then - 14400000 else - 18000000),
      offset_at_local = (\<lambda>l. if 1710039600000 \<le> l \<and> l < 1730599200000
                               then - 14400000 else - 18000000)\<rparr>"

text \<open>
  \<^verbatim>\<open>new Date(key + "T00:00:00")\<close>: the same fields as with the \<^verbatim>\<open>Z\<close>, read as a
  local time \<open>l\<close>; the time value is \<open>l\<close> less the zone's offset at \<open>l\<close>.
\<close>

definition parse_date_local :: "zone \<Rightarrow> string \<Rightarrow> int option" where
  "parse_date_local z s =
     (case parse_date_utc (s @ ''Z'') of
        None \<Rightarrow> None
      | Some l \<Rightarrow> Some (l - offset_at_local z l))"

text \<open>
  \<^verbatim>\<open>const lastDate = new Date(last + "T00:00:00");
  const todayDate = new Date(today + "T00:00:00");
  const diffDays = Math.floor((todayDate - lastDate) / (24 * 3600 * 1000));\<close>
\<close>

definition diffDays_local :: "zone \<Rightarrow> string \<Rightarrow> string \<Rightarrow> int option" where
  "diffDays_local z last_day today =
     (case (parse_date_local z (last_day @ ''T00:00:00''),
            parse_date_local z (today @ ''T00:00:00'')) of
        (Some lastDate, Some todayDate) \<Rightarrow> Some ((todayDate - lastDate) div (24 * 3600 * 1000))
      | _ \<Rightarrow> None)"

text \<open>\<^verbatim>\<open>localDayKey()\<close> at the instant \<open>now\<close> in the zone \<open>z\<close>.\<close>

definition localDayKey_now :: "zone \<Rightarrow> int \<Rightarrow> string" where
  "localDayKey_now z now = localDayKey (offset_at_utc z now) now"

text \<open>
  \<^verbatim>\<open>function reconcileStreakForNewDay() {
    // If user completed a previous day and then misses a day, we break streak
    // We can only infer using lastStreakDay.
    const today = localDayKey();
    const last = localStorage.getItem(LS.lastStreakDay);
    if (!last) return;
    // If last day is older than yesterday, break streak.
    ... if (diffDays >= 2) { setStreak(0); toast(...); } }\<close>
\<close>

definition reconcileStreakForNewDay_local :: "zone \<Rightarrow> int \<Rightarrow> app \<Rightarrow> app" where
  "reconcileStreakForNewDay_local z now a =
     (let today = localDayKey_now z now; last_day = ls_lastStreakDay (LS a)
      in if \<not> truthy_str last_day then a
         else (case diffDays_local z (the last_day) today of
                 None \<Rightarrow> a
               | Some n \<Rightarrow> if n \<ge> 2 then setStreak 0 a else a))"

text \<open>
  \<^verbatim>\<open>function todaySeed(salt = "") { const key = localDayKey(); return hash32(`yve:${key}:${salt}`); }\<close>
  and the index \<^verbatim>\<open>getTodaysChallenge\<close> draws with it.
\<close>

definition todaySeed_local :: "zone \<Rightarrow> int \<Rightarrow> string \<Rightarrow> u32" where
  "todaySeed_local z now salt = hash32 (''yve:'' @ localDayKey_now z now @ '':'' @ salt)"

definition getTodaysChallenge_id_local :: "zone \<Rightarrow> int \<Rightarrow> int" where
  "getTodaysChallenge_id_local z now =
     \<lfloor>snd (mulberry32_next (todaySeed_local z now ''challenge'')) * of_int DAILY_CHALLENGES_length\<rfloor>"

text \<open>
  \<^verbatim>\<open>getTodayChallengeState\<close> and \<^verbatim>\<open>setTodayChallengeState\<close> of this build. Its
  fresh record has one more field, \<^verbatim>\<open>awaySeconds: 0\<close>, which nothing reads; it is
  left out.
\<close>

definition getTodayChallengeState_local :: "zone \<Rightarrow> int \<Rightarrow> app \<Rightarrow> run_state \<times> app" where
  "getTodayChallengeState_local z now a =
     (let fresh = \<lparr>dayKey = localDayKey_now z now, state = not_started, startedAt = None,
                   resultAt = None, challengeId = getTodaysChallenge_id_local z now\<rparr>
      in case ls_todayState (LS a) of
           None \<Rightarrow> (fresh, saveTodayState fresh a)
         | Some s \<Rightarrow>
             if dayKey s \<noteq> localDayKey_now z now then (fresh, saveTodayState fresh a)
             else (s, a))"

definition setTodayChallengeState_local ::
    "zone \<Rightarrow> int \<Rightarrow> (run_state \<Rightarrow> run_state) \<Rightarrow> app \<Rightarrow> run_state \<times> app" where
  "setTodayChallengeState_local z now patch a =
     (case getTodayChallengeState_local z now a of
        (cur, a1) \<Rightarrow> (patch cur, saveTodayState (patch cur) a1))"

text \<open>
  The streak part of this build's \<^verbatim>\<open>completeChallenge\<close>:

  \<^verbatim>\<open>const today = localDayKey();
  const last = localStorage.getItem(LS.lastStreakDay);
  let streak = getStreak();
  if (last === today) {
    // already counted today, keep streak
  } else {
    // if last was yesterday -> increment, else reset to 1
    if (last) { ... if (diffDays === 1) streak += 1; else streak = 1; }
    else { streak = 1; }
    setStreak(streak);
    localStorage.setItem(LS.lastStreakDay, today); }\<close>
\<close>

definition recordCompletion_local :: "zone \<Rightarrow> string \<Rightarrow> app \<Rightarrow> app" where
  "recordCompletion_local z today a =
     (let last_day = ls_lastStreakDay (LS a); streak = getStreak a
      in if last_day = Some today then a
         else (let streak' =
                     (if truthy_str last_day
                      then (if diffDays_local z (the last_day) today = Some 1 then streak + 1 else 1)
                      else 1);
                   a1 = setStreak streak' a
               in a1\<lparr>LS := (LS a1)\<lparr>ls_lastStreakDay := Some today\<rparr>\<rparr>))"

text \<open>
  \<^verbatim>\<open>function completeChallenge() {
    const st = getTodayChallengeState();
    if (st.state !== "in_progress") return;
    stopLeaveRule();
    ... the streak part ...
    setTodayChallengeState({ state: "completed", resultAt: Date.now() }); ... }\<close>
\<close>

definition completeChallenge_local :: "zone \<Rightarrow> int \<Rightarrow> app \<Rightarrow> app" where
  "completeChallenge_local z now a =
     (case getTodayChallengeState_local z now a of (st, a1) \<Rightarrow>
        if state st \<noteq> in_progress then a1
        else snd (setTodayChallengeState_local z now
                    (\<lambda>r. r\<lparr>state := completed, resultAt := Some now\<rparr>)
                    (recordCompletion_local z (localDayKey_now z now) (stopLeaveRule a1))))"

subsection \<open>Observing the watcher\<close>

text \<open>
  A return event is the page becoming visible or the window gaining focus. \<open>firings\<close>
  lists, along a run, the argument of every call of a rule's callback by a return event.
\<close>

fun is_return :: "event \<Rightarrow> bool" where
  "is_return (VisibilityChange hidden) = (\<not> hidden)"
| "is_return Focus = True"
| "is_return _ = False"

fun firings :: "app \<Rightarrow> (int \<times> event) list \<Rightarrow> int list" where
  "firings a [] = []"
| "firings a ((now, e) # evs) =
     (if is_return e then (case fired now a of None \<Rightarrow> [] | Some x \<Rightarrow> [x]) else [])
       @ firings (step a (now, e)) evs"

definition no_away :: "app \<Rightarrow> bool" where
  "no_away a = (case activeRule a of None \<Rightarrow> True | Some r \<Rightarrow> awayStart r = None)"

definition sessions_ok :: "app \<Rightarrow> bool" where
  "sessions_ok a = (session_ok (Boss a) \<and> session_ok (Arena a))"

subsection \<open>Example states\<close>

definition empty_storage :: storage where
  "empty_storage =
     \<lparr>ls_streak = None, ls_lastStreakDay = None, ls_todayState = None, ls_bossHistory = [],
      ls_arenaHistory = [], ls_arenaBadges = None\<rparr>"

text \<open>A 25 minute boss fight under way, with \<open>r\<close> milliseconds left.\<close>

definition boss_fight_at :: "int \<Rightarrow> int option \<Rightarrow> app" where
  "boss_fight_at r s =
     \<lparr>tza = 0, activeRule = Some \<lparr>rtype = bossFight, thresholdMs = 15000, awayStart = s\<rparr>,
      Boss = \<lparr>running = True, totalMs = 1500000, remainingMs = r, selectedMin = 25,
              task = ''write''\<rparr>,
      Arena = initial_session, LS = empty_storage\<rparr>"

text \<open>
  The challenge of 15 November 2023 under way, joined at midnight UTC, with a streak of 3
  and \<open>l\<close> as the last streak day.
\<close>

definition challenge_running :: "string option \<Rightarrow> app" where
  "challenge_running l =
     \<lparr>tza = 0, activeRule = Some \<lparr>rtype = challenge24, thresholdMs = 15000, awayStart = None\<rparr>,
      Boss = initial_session, Arena = initial_session,
      LS = \<lparr>ls_streak = Some ''3'', ls_lastStreakDay = l,
            ls_todayState = Some \<lparr>dayKey = ''2023-11-15'', state = in_progress,
                                  startedAt = Some 1700006400000, resultAt = None,
                                  challengeId = 5\<rparr>,
            ls_bossHistory = [], ls_arenaHistory = [], ls_arenaBadges = None\<rparr>\<rparr>"

text \<open>
  March 2024, a streak of 3 with \<open>l\<close> as the last streak day; the challenge of 11 March
  is under way.
\<close>

definition march_streak :: "string \<Rightarrow> app" where
  "march_streak l =
     \<lparr>tza = - 14400000,
      activeRule = Some \<lparr>rtype = challenge24, thresholdMs = 15000, awayStart = None\<rparr>,
      Boss = initial_session, Arena = initial_session,
      LS = \<lparr>ls_streak = Some ''3'', ls_lastStreakDay = Some l,
            ls_todayState = Some \<lparr>dayKey = ''2024-03-11'', state = in_progress,
                                  startedAt = Some 1710165600000, resultAt = None,
                                  challengeId = 5\<rparr>,
            ls_bossHistory = [], ls_arenaHistory = [], ls_arenaBadges = None\<rparr>\<rparr>"

text \<open>A run: a one minute boss fight with a long absence, then an arena session.\<close>

definition example_events :: "(int \<times> event) list" where
  "example_events =
     [(1000, BossPreset 1), (2000, BossStart ''x''), (3000, BossTick), (4000, Blur),
      (30000, Focus), (31000, BossTick), (40000, ArenaPreset 0), (41000, ArenaStart),
      (42000, ArenaTick)]"

section \<open>Properties\<close>

subsection \<open>Days, years and months\<close>

lemma div_step:
  fixes x k :: int
  assumes "0 < k"
  shows "(x + 1) div k - x div k = (if (x + 1) mod k = 0 then 1 else 0)"
proof -
  define q where "q = x div k"
  define r where "r = x mod k"
  have x: "x = q * k + r" by (simp add: q_def r_def)
  have r0: "0 \<le> r" and rk: "r < k" using assms by (simp_all add: r_def)
  show ?thesis
  proof (cases "r + 1 = k")
    case True
    have "x + 1 = q * k + (r + 1)" using x by simp
    also have "\<dots> = (q + 1) * k" using True by (simp add: distrib_right)
    finally have e: "x + 1 = (q + 1) * k" .
    have "(x + 1) div k = q + 1" and "(x + 1) mod k = 0"
      using assms by (simp_all add: e)
    then show ?thesis by (simp add: q_def)
  next
    case False
    have lt: "r + 1 < k" using False rk by simp
    have ge: "0 \<le> r + 1" using r0 by simp
    have e: "x + 1 = q * k + (r + 1)" using x by simp
    have d0: "(r + 1) div k = 0" using ge lt by (rule div_pos_pos_trivial)
    have m0: "(r + 1) mod k = r + 1" using ge lt by (rule mod_pos_pos_trivial)
    have "(x + 1) div k = q" using assms d0 by (simp only: e div_mult_self3)
    moreover have "(x + 1) mod k = r + 1" using m0 by (simp only: e mod_mult_self3)
    moreover have "r + 1 \<noteq> 0" using r0 by simp
    ultimately show ?thesis by (simp add: q_def)
  qed
qed

lemma leap_step:
  fixes y c k :: int
  assumes "0 < k" and "k dvd c - 1"
  shows "(y + 1 - c) div k - (y - c) div k = (if y mod k = 0 then 1 else 0)"
proof -
  have e: "y + 1 - c = (y - c) + 1" by simp
  have "(y - c) + 1 = y - (c - 1)" by simp
  then have "k dvd (y - c) + 1 \<longleftrightarrow> k dvd y"
    using assms(2) by (simp only: dvd_diff_left_iff)
  then have m: "((y - c) + 1) mod k = 0 \<longleftrightarrow> y mod k = 0"
    by (simp only: mod_eq_0_iff_dvd)
  show ?thesis
    unfolding e using div_step[OF assms(1), of "y - c"] m by presburger
qed

lemma mod_chain:
  fixes y :: int
  shows "y mod 400 = 0 \<Longrightarrow> y mod 100 = 0" "y mod 100 = 0 \<Longrightarrow> y mod 4 = 0"
proof -
  have a: "(100::int) dvd 400" and b: "(4::int) dvd 100" by simp_all
  show "y mod 400 = 0 \<Longrightarrow> y mod 100 = 0"
    unfolding mod_eq_0_iff_dvd using a by (rule dvd_trans)
  show "y mod 100 = 0 \<Longrightarrow> y mod 4 = 0"
    unfolding mod_eq_0_iff_dvd using b by (rule dvd_trans)
qed

lemma DaysInYear_lin:
  fixes y :: int
  shows "365 * (y + 1 - 1970) + a1 - b1 + c1 - (365 * (y - 1970) + a0 - b0 + c0)
         = 365 + (a1 - a0) - (b1 - b0) + (c1 - c0)"
  by simp

lemma DaysInYear: "DayFromYear (y + 1) - DayFromYear y = 365 + leap_days y"
proof -
  have a: "(y + 1 - 1969) div 4 - (y - 1969) div 4 = (if y mod 4 = 0 then 1 else 0)"
    by (rule leap_step) simp_all
  have b: "(y + 1 - 1901) div 100 - (y - 1901) div 100 = (if y mod 100 = 0 then 1 else 0)"
    by (rule leap_step) simp_all
  have c: "(y + 1 - 1601) div 400 - (y - 1601) div 400 = (if y mod 400 = 0 then 1 else 0)"
    by (rule leap_step) simp_all
  have "DayFromYear (y + 1) - DayFromYear y
      = 365 + ((y + 1 - 1969) div 4 - (y - 1969) div 4)
            - ((y + 1 - 1901) div 100 - (y - 1901) div 100)
            + ((y + 1 - 1601) div 400 - (y - 1601) div 400)"
    unfolding DayFromYear_def by (rule DaysInYear_lin)
  also have "\<dots> = 365 + (if y mod 4 = 0 then 1 else 0) - (if y mod 100 = 0 then 1 else 0)
                     + (if y mod 400 = 0 then 1 else 0)"
    by (simp only: a b c)
  also have "\<dots> = 365 + leap_days y"
  proof -
    define p4 where "p4 = (y mod 4 = 0)"
    define p100 where "p100 = (y mod 100 = 0)"
    define p400 where "p400 = (y mod 400 = 0)"
    have i1: "p400 \<longrightarrow> p100" and i2: "p100 \<longrightarrow> p4"
      using mod_chain[of y] by (auto simp: p4_def p100_def p400_def)
    have "365 + (if p4 then 1 else 0) - (if p100 then 1 else 0) + (if p400 then 1 else 0)
          = (365::int) + (if p4 \<and> (\<not> p100 \<or> p400) then 1 else 0)"
      using i1 i2 by (cases p4; cases p100; cases p400) simp_all
    then show ?thesis
      by (simp only: leap_days_def InLeapYear_def p4_def p100_def p400_def)
  qed
  finally show ?thesis .
qed

lemma DayFromYear_cycle: "DayFromYear (2000 + 400 * e) = 10957 + 146097 * e"
proof -
  have a: "(2000 + 400 * e - 1969) div 4 = 7 + 100 * e"
    using div_mult_self2[of 4 31 "100 * e"] by (simp add: algebra_simps)
  have b: "(2000 + 400 * e - 1901) div 100 = 4 * e"
    using div_mult_self2[of 100 99 "4 * e"] by (simp add: algebra_simps)
  have c: "(2000 + 400 * e - 1601) div 400 = e"
    using div_mult_self2[of 400 399 e] by (simp add: algebra_simps)
  show ?thesis unfolding DayFromYear_def a b c by simp
qed

lemma year_search_correct:
  "DayFromYear base \<le> d \<Longrightarrow> d < DayFromYear (base + int n + 1) \<Longrightarrow>
   DayFromYear (year_search base d n) \<le> d \<and> d < DayFromYear (year_search base d n + 1)"
proof (induction n)
  case 0
  then show ?case by simp
next
  case (Suc n)
  show ?case
  proof (cases "DayFromYear (base + int (Suc n)) \<le> d")
    case True
    then show ?thesis using Suc.prems(2) by simp
  next
    case False
    then have "d < DayFromYear (base + int n + 1)" by (simp add: add.commute add.left_commute)
    from Suc.IH[OF Suc.prems(1) this] False show ?thesis by simp
  qed
qed

lemma YearFromDay_bracket:
  "DayFromYear (YearFromDay d) \<le> d \<and> d < DayFromYear (YearFromDay d + 1)"
proof -
  define e where "e = (d - 10957) div 146097"
  define r where "r = (d - 10957) mod 146097"
  have dr: "d - 10957 = 146097 * e + r" by (simp add: e_def r_def)
  have r0: "0 \<le> r" and r1: "r < 146097" by (simp_all add: r_def)
  have lo: "DayFromYear (2000 + 400 * e) \<le> d"
    unfolding DayFromYear_cycle using dr r0 by linarith
  have "2000 + 400 * e + int 399 + 1 = 2000 + 400 * (e + 1)" by simp
  then have eq: "DayFromYear (2000 + 400 * e + int 399 + 1) = 10957 + 146097 * (e + 1)"
    by (simp only: DayFromYear_cycle)
  have "146097 * (e + 1) = 146097 * e + 146097" by (simp add: distrib_left)
  then have "d < 10957 + 146097 * (e + 1)" using dr r1 by simp
  then have hi: "d < DayFromYear (2000 + 400 * e + int 399 + 1)"
    by (simp only: eq)
  from year_search_correct[OF lo hi] show ?thesis
    by (simp only: YearFromDay_def e_def)
qed

lemma DayWithinYear_bounds:
  "0 \<le> DayWithinYear t" "DayWithinYear t < 365 + leap_days (YearFromTime t)"
proof -
  have b: "DayFromYear (YearFromTime t) \<le> Day t \<and> Day t < DayFromYear (YearFromTime t + 1)"
    unfolding YearFromTime_def by (rule YearFromDay_bracket)
  show "0 \<le> DayWithinYear t" using b by (simp add: DayWithinYear_def)
  show "DayWithinYear t < 365 + leap_days (YearFromTime t)"
    using b DaysInYear[of "YearFromTime t"] by (simp add: DayWithinYear_def)
qed

lemma leap_days_cases: "leap_days y = 0 \<or> leap_days y = 1"
  by (simp add: leap_days_def)

lemma month_date_table:
  fixes l w :: int
  assumes "l = 0 \<or> l = 1" and "0 \<le> w" and "w < 365 + l"
  defines "m \<equiv> (if w < 31 then 0 else if w < 59 + l then 1 else if w < 90 + l then 2
         else if w < 120 + l then 3 else if w < 151 + l then 4 else if w < 181 + l then 5
         else if w < 212 + l then 6 else if w < 243 + l then 7 else if w < 273 + l then 8
         else if w < 304 + l then 9 else if w < 334 + l then 10 else (11::int))"
  shows "0 \<le> m \<and> m \<le> 11 \<and> 1 \<le> w - month_start l m + 1
         \<and> w - month_start l m + 1
             \<le> (if m = 1 then 28 + l else if m = 3 \<or> m = 5 \<or> m = 8 \<or> m = 10 then 30 else 31)"
  using assms(1-3) unfolding m_def month_start_def by auto

lemma MonthFromTime_bounds: "0 \<le> MonthFromTime t" "MonthFromTime t \<le> 11"
  using month_date_table[OF leap_days_cases DayWithinYear_bounds, of t]
  unfolding MonthFromTime_def DateFromTime_def DaysInMonth_def Let_def by blast+

lemma DateFromTime_bounds:
  "1 \<le> DateFromTime t" "DateFromTime t \<le> DaysInMonth (YearFromTime t) (MonthFromTime t)"
  using month_date_table[OF leap_days_cases DayWithinYear_bounds, of t]
  unfolding MonthFromTime_def DateFromTime_def DaysInMonth_def Let_def by blast+

lemma DaysInMonth_le: "DaysInMonth y m \<le> 31"
  using leap_days_cases[of y] by (auto simp: DaysInMonth_def)

lemma MakeDay_fields: "MakeDay (YearFromTime t) (MonthFromTime t) (DateFromTime t) = Day t"
  by (simp add: MakeDay_def DateFromTime_def DayWithinYear_def)

lemma DayFromYear_mono_nat: "DayFromYear y \<le> DayFromYear (y + int n)"
proof (induction n)
  case 0
  then show ?case by simp
next
  case (Suc n)
  have e: "y + int (Suc n) = y + int n + 1" by simp
  have "DayFromYear (y + int n) \<le> DayFromYear (y + int n + 1)"
    using DaysInYear[of "y + int n"] leap_days_cases[of "y + int n"] by linarith
  with Suc show ?case unfolding e by linarith
qed

lemma DayFromYear_mono: "y \<le> z \<Longrightarrow> DayFromYear y \<le> DayFromYear z"
  using DayFromYear_mono_nat[of y "nat (z - y)"] by simp

lemma DayFromYear_0: "DayFromYear 0 = - 719528"
  by (simp add: DayFromYear_def)

lemma DayFromYear_10000: "DayFromYear 10000 = 2932897"
  by (simp add: DayFromYear_def)

lemma YearFromTime_range:
  assumes "- 719528 \<le> Day t" and "Day t < 2932897"
  shows "0 \<le> YearFromTime t" and "YearFromTime t \<le> 9999"
proof -
  have b: "DayFromYear (YearFromTime t) \<le> Day t" "Day t < DayFromYear (YearFromTime t + 1)"
    unfolding YearFromTime_def using YearFromDay_bracket by simp_all
  show "0 \<le> YearFromTime t"
  proof (rule ccontr)
    assume "\<not> 0 \<le> YearFromTime t"
    then have "YearFromTime t + 1 \<le> 0" by simp
    from DayFromYear_mono[OF this] b(2) assms(1) show False by (simp add: DayFromYear_0)
  qed
  show "YearFromTime t \<le> 9999"
  proof (rule ccontr)
    assume "\<not> YearFromTime t \<le> 9999"
    then have "10000 \<le> YearFromTime t" by simp
    from DayFromYear_mono[OF this] b(1) assms(2) show False by (simp add: DayFromYear_10000)
  qed
qed

subsection \<open>Day keys as text\<close>

lemma digit_char_ok: "d < 10 \<Longrightarrow> is_digit (digit_char d) \<and> digit_val (digit_char d) = d"
  by (simp add: is_digit_def digit_val_def digit_char_def)

lemma digits_val_snoc: "digits_val (s @ [c]) = 10 * digits_val s + digit_val c"
  by (simp add: digits_val_def)

lemma dec_nat_digits: "list_all is_digit (dec_nat n) \<and> digits_val (dec_nat n) = n \<and> dec_nat n \<noteq> []"
proof (induction n rule: dec_nat.induct)
  case (1 n)
  show ?case
  proof (cases "n < 10")
    case True
    then have "dec_nat n = [digit_char n]" by (simp add: dec_nat.simps)
    then show ?thesis using digit_char_ok[OF True] by (simp add: digits_val_def)
  next
    case False
    have m: "n mod 10 < 10" by simp
    have e: "dec_nat n = dec_nat (n div 10) @ [digit_char (n mod 10)]"
      using False by (subst dec_nat.simps) simp
    from "1.IH"[OF False] digit_char_ok[OF m] show ?thesis
      unfolding e by (simp add: digits_val_snoc)
  qed
qed

lemma length_dec_nat: "0 < k \<Longrightarrow> n < 10 ^ k \<Longrightarrow> length (dec_nat n) \<le> k"
proof (induction k arbitrary: n)
  case 0
  then show ?case by simp
next
  case (Suc k)
  show ?case
  proof (cases "n < 10")
    case True
    then have "dec_nat n = [digit_char n]" by (simp add: dec_nat.simps)
    then show ?thesis by simp
  next
    case False
    have e: "dec_nat n = dec_nat (n div 10) @ [digit_char (n mod 10)]"
      using False by (subst dec_nat.simps) simp
    have k: "0 < k"
    proof (rule ccontr)
      assume "\<not> 0 < k"
      then have "k = 0" by simp
      with Suc.prems(2) False show False by simp
    qed
    have "n div 10 < 10 ^ k" using Suc.prems(2) by (simp add: less_mult_imp_div_less mult.commute)
    from Suc.IH[OF k this] show ?thesis unfolding e by simp
  qed
qed

lemma digits_val_zeros: "digits_val (replicate k (CHR ''0'') @ s) = digits_val s"
proof -
  have "foldl (\<lambda>acc c. 10 * acc + digit_val c) 0 (replicate k (CHR ''0'')) = 0"
    by (induction k) (simp_all add: digit_val_def)
  then show ?thesis by (simp add: digits_val_def)
qed

lemma is_digit_zero: "is_digit (CHR ''0'')"
  by (simp add: is_digit_def)

lemma padStart_dec:
  assumes "0 < w" and "n < 10 ^ w"
  shows "length (padStart w (CHR ''0'') (dec_nat n)) = w"
    and "parse_digits (padStart w (CHR ''0'') (dec_nat n)) = Some n"
proof -
  have l: "length (dec_nat n) \<le> w" using assms by (rule length_dec_nat)
  then show "length (padStart w (CHR ''0'') (dec_nat n)) = w" by (simp add: padStart_def)
  have "list_all is_digit (padStart w (CHR ''0'') (dec_nat n))"
    using dec_nat_digits[of n] is_digit_zero by (auto simp: padStart_def list_all_iff)
  moreover have "padStart w (CHR ''0'') (dec_nat n) \<noteq> []"
    using dec_nat_digits[of n] by (simp add: padStart_def)
  moreover have "digits_val (padStart w (CHR ''0'') (dec_nat n)) = n"
    using dec_nat_digits[of n] by (simp add: padStart_def digits_val_zeros)
  ultimately show "parse_digits (padStart w (CHR ''0'') (dec_nat n)) = Some n"
    by (simp add: parse_digits_def)
qed

lemma String_nonneg: "0 \<le> n \<Longrightarrow> String n = dec_nat (nat n)"
  by (simp add: String_def)

lemma pad2_ok:
  assumes "0 \<le> n" and "n \<le> 99"
  shows "length (pad2 n) = 2" and "parse_digits (pad2 n) = Some (nat n)"
proof -
  have "nat n < 10 ^ 2" using assms by simp
  from padStart_dec[OF _ this] show "length (pad2 n) = 2" "parse_digits (pad2 n) = Some (nat n)"
    using assms(1) by (simp_all add: pad2_def String_nonneg)
qed

lemma iso_year_ok:
  assumes "0 \<le> y" and "y \<le> 9999"
  shows "length (iso_year y) = 4" and "parse_digits (iso_year y) = Some (nat y)"
proof -
  have "nat y < 10 ^ 4" using assms by simp
  from padStart_dec[OF _ this] show "length (iso_year y) = 4" "parse_digits (iso_year y) = Some (nat y)"
    using assms by (simp_all add: iso_year_def String_nonneg)
qed

lemma length2E: "length xs = 2 \<Longrightarrow> \<exists>a b. xs = [a, b]"
  by (auto simp: eval_nat_numeral length_Suc_conv)

lemma length4E: "length xs = 4 \<Longrightarrow> \<exists>a b c d. xs = [a, b, c, d]"
  by (auto simp: eval_nat_numeral length_Suc_conv)

lemma parse_date_utc_shape:
  assumes "length A = 4" and "length B = 2" and "length C = 2"
    and "parse_digits A = Some y" and "parse_digits B = Some m" and "parse_digits C = Some d"
  shows "parse_date_utc ((A @ ''-'' @ B @ ''-'' @ C) @ ''T00:00:00Z'')
          = (if 1 \<le> m \<and> m \<le> 12 \<and> 1 \<le> d \<and> int d \<le> DaysInMonth (int y) (int m - 1)
             then Some (MakeDay (int y) (int m - 1) (int d) * msPerDay) else None)"
proof -
  obtain a1 a2 a3 a4 where A: "A = [a1, a2, a3, a4]" using length4E[OF assms(1)] by blast
  obtain b1 b2 where B: "B = [b1, b2]" using length2E[OF assms(2)] by blast
  obtain c1 c2 where C: "C = [c1, c2]" using length2E[OF assms(3)] by blast
  have t: "take 4 ((A @ ''-'' @ B @ ''-'' @ C) @ ''T00:00:00Z'') = A"
    "take 2 (drop 5 ((A @ ''-'' @ B @ ''-'' @ C) @ ''T00:00:00Z'')) = B"
    "take 2 (drop 8 ((A @ ''-'' @ B @ ''-'' @ C) @ ''T00:00:00Z'')) = C"
    "drop 10 ((A @ ''-'' @ B @ ''-'' @ C) @ ''T00:00:00Z'') = ''T00:00:00Z''"
    "length ((A @ ''-'' @ B @ ''-'' @ C) @ ''T00:00:00Z'') = 20"
    "((A @ ''-'' @ B @ ''-'' @ C) @ ''T00:00:00Z'') ! 4 = CHR ''-''"
    "((A @ ''-'' @ B @ ''-'' @ C) @ ''T00:00:00Z'') ! 7 = CHR ''-''"
    by (simp_all add: A B C)
  show ?thesis
    unfolding parse_date_utc_def t using assms(4-6) by simp
qed

lemma Day_range:
  assumes "four_digit_year t"
  shows "- 719528 \<le> Day t" and "Day t < 2932897"
proof -
  have "(- 62167219200000) div 86400000 \<le> t div (86400000::int)"
    using assms by (intro zdiv_mono1) (simp_all add: four_digit_year_def)
  then show "- 719528 \<le> Day t" by (simp add: Day_def msPerDay_def)
  have "t div (86400000::int) \<le> 253402300799999 div 86400000"
    using assms by (intro zdiv_mono1) (simp_all add: four_digit_year_def)
  then show "Day t < 2932897" by (simp add: Day_def msPerDay_def)
qed

lemma utcDayKey_fields:
  assumes "four_digit_year t"
  shows "utcDayKey z t
          = iso_year (YearFromTime t) @ ''-'' @ pad2 (MonthFromTime t + 1) @ ''-''
              @ pad2 (DateFromTime t)"
    and "length (iso_year (YearFromTime t)) = 4"
    and "length (pad2 (MonthFromTime t + 1)) = 2"
    and "length (pad2 (DateFromTime t)) = 2"
    and "parse_digits (iso_year (YearFromTime t)) = Some (nat (YearFromTime t))"
    and "parse_digits (pad2 (MonthFromTime t + 1)) = Some (nat (MonthFromTime t + 1))"
    and "parse_digits (pad2 (DateFromTime t)) = Some (nat (DateFromTime t))"
proof -
  have y: "0 \<le> YearFromTime t" "YearFromTime t \<le> 9999"
    using YearFromTime_range[OF Day_range[OF assms]] by simp_all
  have m: "0 \<le> MonthFromTime t + 1" "MonthFromTime t + 1 \<le> 99"
    using MonthFromTime_bounds[of t] by simp_all
  have d: "0 \<le> DateFromTime t" "DateFromTime t \<le> 99"
    using DateFromTime_bounds[of t] DaysInMonth_le[of "YearFromTime t" "MonthFromTime t"]
    by simp_all
  show ly: "length (iso_year (YearFromTime t)) = 4"
    and lm: "length (pad2 (MonthFromTime t + 1)) = 2"
    and ld: "length (pad2 (DateFromTime t)) = 2"
    and "parse_digits (iso_year (YearFromTime t)) = Some (nat (YearFromTime t))"
    and "parse_digits (pad2 (MonthFromTime t + 1)) = Some (nat (MonthFromTime t + 1))"
    and "parse_digits (pad2 (DateFromTime t)) = Some (nat (DateFromTime t))"
    using iso_year_ok[OF y] pad2_ok[OF m] pad2_ok[OF d] by simp_all
  show "utcDayKey z t
          = iso_year (YearFromTime t) @ ''-'' @ pad2 (MonthFromTime t + 1) @ ''-''
              @ pad2 (DateFromTime t)"
    by (simp add: utcDayKey_def toISOString_def ly lm ld)
qed

lemma length_utcDayKey: "four_digit_year t \<Longrightarrow> length (utcDayKey z t) = 10"
  using utcDayKey_fields(2-4)[of t] by (simp add: utcDayKey_fields(1))

lemma parse_utcDayKey:
  assumes "four_digit_year t"
  shows "parse_date_utc (utcDayKey z t @ ''T00:00:00Z'') = Some (Day t * msPerDay)"
proof -
  note f = utcDayKey_fields[OF assms]
  have m: "1 \<le> nat (MonthFromTime t + 1)" "nat (MonthFromTime t + 1) \<le> 12"
    "int (nat (MonthFromTime t + 1)) - 1 = MonthFromTime t"
    using MonthFromTime_bounds[of t] by simp_all
  have d: "1 \<le> nat (DateFromTime t)" "int (nat (DateFromTime t)) = DateFromTime t"
    using DateFromTime_bounds(1)[of t] by simp_all
  have y: "int (nat (YearFromTime t)) = YearFromTime t"
    using YearFromTime_range(1)[OF Day_range[OF assms]] by simp
  have dm: "DateFromTime t \<le> DaysInMonth (YearFromTime t) (MonthFromTime t)"
    by (rule DateFromTime_bounds(2))
  have cond: "1 \<le> nat (MonthFromTime t + 1) \<and> nat (MonthFromTime t + 1) \<le> 12
      \<and> 1 \<le> nat (DateFromTime t)
      \<and> int (nat (DateFromTime t))
          \<le> DaysInMonth (int (nat (YearFromTime t))) (int (nat (MonthFromTime t + 1)) - 1)"
    unfolding m(3) d(2) y using m(1,2) d(1) dm by blast
  have val: "MakeDay (int (nat (YearFromTime t))) (int (nat (MonthFromTime t + 1)) - 1)
               (int (nat (DateFromTime t))) = Day t"
    unfolding m(3) d(2) y by (rule MakeDay_fields)
  show ?thesis
    unfolding f(1)[of z] parse_date_utc_shape[OF f(2-7)] val using cond by (rule if_P)
qed

lemma diffDays_utcDayKey:
  assumes "four_digit_year t1" and "four_digit_year t2"
  shows "diffDays (utcDayKey z1 t1) (utcDayKey z2 t2) = Some (Day t2 - Day t1)"
proof -
  have "(Day t2 * 86400000 - Day t1 * 86400000) = (Day t2 - Day t1) * 86400000"
    by (simp add: left_diff_distrib)
  then have "(Day t2 * 86400000 - Day t1 * 86400000) div 86400000 = Day t2 - Day t1"
    by simp
  then show ?thesis
    by (simp add: diffDays_def parse_utcDayKey[OF assms(1)] parse_utcDayKey[OF assms(2)]
          msPerDay_def)
qed

lemma YearFromDay_unique:
  assumes "DayFromYear y \<le> d" and "d < DayFromYear (y + 1)"
  shows "YearFromDay d = y"
proof -
  note b = YearFromDay_bracket[of d]
  have "\<not> YearFromDay d < y"
  proof
    assume "YearFromDay d < y"
    then have "YearFromDay d + 1 \<le> y" by simp
    from DayFromYear_mono[OF this] b assms(1) show False by linarith
  qed
  moreover have "\<not> y < YearFromDay d"
  proof
    assume "y < YearFromDay d"
    then have "y + 1 \<le> YearFromDay d" by simp
    from DayFromYear_mono[OF this] b assms(2) show False by linarith
  qed
  ultimately show ?thesis by simp
qed

lemma fields_at:
  assumes "DayFromYear y \<le> Day t" and "Day t < DayFromYear (y + 1)"
  shows "YearFromTime t = y" and "DayWithinYear t = Day t - DayFromYear y"
proof -
  show y: "YearFromTime t = y"
    unfolding YearFromTime_def using assms by (rule YearFromDay_unique)
  show "DayWithinYear t = Day t - DayFromYear y" by (simp add: DayWithinYear_def y)
qed

lemma same_day_same_key:
  assumes "Day t1 = Day t2"
  shows "utcDayKey z1 t1 = utcDayKey z2 t2 \<or> \<not> four_digit_year t1 \<or> \<not> four_digit_year t2"
proof (cases "four_digit_year t1 \<and> four_digit_year t2")
  case True
  have y: "YearFromTime t1 = YearFromTime t2" by (simp add: YearFromTime_def assms)
  have w: "DayWithinYear t1 = DayWithinYear t2" by (simp add: DayWithinYear_def assms y)
  have m: "MonthFromTime t1 = MonthFromTime t2" by (simp add: MonthFromTime_def y w)
  have d: "DateFromTime t1 = DateFromTime t2" by (simp add: DateFromTime_def y w m)
  show ?thesis
    using True by (simp add: utcDayKey_fields(1) y m d)
next
  case False
  then show ?thesis by blast
qed

lemma utcDayKey_eq_iff:
  assumes "four_digit_year t1" and "four_digit_year t2"
  shows "utcDayKey z1 t1 = utcDayKey z2 t2 \<longleftrightarrow> Day t1 = Day t2"
proof
  assume "utcDayKey z1 t1 = utcDayKey z2 t2"
  then have "parse_date_utc (utcDayKey z1 t1 @ ''T00:00:00Z'')
             = parse_date_utc (utcDayKey z2 t2 @ ''T00:00:00Z'')" by simp
  then show "Day t1 = Day t2"
    by (simp add: parse_utcDayKey[OF assms(1)] parse_utcDayKey[OF assms(2)] msPerDay_def)
next
  assume "Day t1 = Day t2"
  from same_day_same_key[OF this] assms show "utcDayKey z1 t1 = utcDayKey z2 t2" by blast
qed

lemma digit_chars:
  "digit_char 0 = CHR ''0''" "digit_char 1 = CHR ''1''" "digit_char (Suc 0) = CHR ''1''"
  "digit_char 2 = CHR ''2''" "digit_char 3 = CHR ''3''" "digit_char 4 = CHR ''4''"
  "digit_char 5 = CHR ''5''" "digit_char 6 = CHR ''6''" "digit_char 7 = CHR ''7''"
  "digit_char 8 = CHR ''8''" "digit_char 9 = CHR ''9''"
  by code_simp+

lemmas text_eval = iso_year_def pad2_def padStart_def String_def dec_nat.simps digit_chars

text \<open>Three instants, with their keys.\<close>

lemma key_nov_14: "utcDayKey z 1700000000000 = ''2023-11-14''"
proof -
  have d: "Day 1700000000000 = 19675" by (simp add: Day_def msPerDay_def)
  have "DayFromYear 2023 \<le> Day 1700000000000" "Day 1700000000000 < DayFromYear (2023 + 1)"
    by (simp_all add: d DayFromYear_def)
  note f = fields_at[OF this]
  have w: "DayWithinYear 1700000000000 = 317" by (simp add: f(2) d DayFromYear_def)
  have l: "leap_days 2023 = 0" by (simp add: leap_days_def InLeapYear_def)
  have m: "MonthFromTime 1700000000000 = 10" by (simp add: MonthFromTime_def f(1) w l)
  have dt: "DateFromTime 1700000000000 = 14"
    by (simp add: DateFromTime_def f(1) w l m month_start_def)
  show ?thesis by (simp add: utcDayKey_def toISOString_def f(1) m dt text_eval)
qed

lemma key_nov_15: "utcDayKey z 1700086400000 = ''2023-11-15''"
proof -
  have d: "Day 1700086400000 = 19676" by (simp add: Day_def msPerDay_def)
  have "DayFromYear 2023 \<le> Day 1700086400000" "Day 1700086400000 < DayFromYear (2023 + 1)"
    by (simp_all add: d DayFromYear_def)
  note f = fields_at[OF this]
  have w: "DayWithinYear 1700086400000 = 318" by (simp add: f(2) d DayFromYear_def)
  have l: "leap_days 2023 = 0" by (simp add: leap_days_def InLeapYear_def)
  have m: "MonthFromTime 1700086400000 = 10" by (simp add: MonthFromTime_def f(1) w l)
  have dt: "DateFromTime 1700086400000 = 15"
    by (simp add: DateFromTime_def f(1) w l m month_start_def)
  show ?thesis by (simp add: utcDayKey_def toISOString_def f(1) m dt text_eval)
qed

text \<open>One hour before midnight UTC on the first day of 1970, seen from UTC and from two
  hours east of it.\<close>

lemma local_key_utc: "localDayKey 0 82800000 = ''1970-01-01''"
proof -
  have d: "Day 82800000 = 0" by (simp add: Day_def msPerDay_def)
  have "DayFromYear 1970 \<le> Day 82800000" "Day 82800000 < DayFromYear (1970 + 1)"
    by (simp_all add: d DayFromYear_def)
  note f = fields_at[OF this]
  have w: "DayWithinYear 82800000 = 0" by (simp add: f(2) d DayFromYear_def)
  have l: "leap_days 1970 = 0" by (simp add: leap_days_def InLeapYear_def)
  have m: "MonthFromTime 82800000 = 0" by (simp add: MonthFromTime_def f(1) w l)
  have dt: "DateFromTime 82800000 = 1"
    by (simp add: DateFromTime_def f(1) w l m month_start_def)
  show ?thesis
    by (simp add: localDayKey_def getFullYear_def getMonth_def getDate_def LocalTime_def
          f(1) m dt text_eval)
qed

lemma local_key_east: "localDayKey 7200000 82800000 = ''1970-01-02''"
proof -
  have d: "Day 90000000 = 1" by (simp add: Day_def msPerDay_def)
  have "DayFromYear 1970 \<le> Day 90000000" "Day 90000000 < DayFromYear (1970 + 1)"
    by (simp_all add: d DayFromYear_def)
  note f = fields_at[OF this]
  have w: "DayWithinYear 90000000 = 1" by (simp add: f(2) d DayFromYear_def)
  have l: "leap_days 1970 = 0" by (simp add: leap_days_def InLeapYear_def)
  have m: "MonthFromTime 90000000 = 0" by (simp add: MonthFromTime_def f(1) w l)
  have dt: "DateFromTime 90000000 = 2"
    by (simp add: DateFromTime_def f(1) w l m month_start_def)
  show ?thesis
    by (simp add: localDayKey_def getFullYear_def getMonth_def getDate_def LocalTime_def
          f(1) m dt text_eval)
qed

subsection \<open>What the handlers leave alone\<close>

lemma activeRule_saveTodayState [simp]: "activeRule (saveTodayState s a) = activeRule a"
  by (simp add: saveTodayState_def)

lemma activeRule_getToday [simp]: "activeRule (snd (getTodayChallengeState now a)) = activeRule a"
  by (simp add: getTodayChallengeState_def split: option.splits)

lemma activeRule_setToday [simp]:
  "activeRule (snd (setTodayChallengeState now p a)) = activeRule a"
  by (simp add: setTodayChallengeState_def case_prod_beta)

lemma sessions_getToday [simp]:
  "Boss (snd (getTodayChallengeState now a)) = Boss a"
  "Arena (snd (getTodayChallengeState now a)) = Arena a"
  by (simp_all add: getTodayChallengeState_def saveTodayState_def split: option.splits)

lemma sessions_setToday [simp]:
  "Boss (snd (setTodayChallengeState now p a)) = Boss a"
  "Arena (snd (setTodayChallengeState now p a)) = Arena a"
  by (simp_all add: setTodayChallengeState_def saveTodayState_def case_prod_beta)

lemma sessions_recordCompletion [simp]:
  "Boss (recordCompletion d a) = Boss a" "Arena (recordCompletion d a) = Arena a"
  by (simp_all add: recordCompletion_def setStreak_def Let_def)

lemma sessions_challenge [simp]:
  "Boss (joinChallenge now a) = Boss a" "Arena (joinChallenge now a) = Arena a"
  "Boss (completeChallenge now a) = Boss a" "Arena (completeChallenge now a) = Arena a"
  "Boss (failChallenge now a) = Boss a" "Arena (failChallenge now a) = Arena a"
  by (simp_all add: joinChallenge_def completeChallenge_def failChallenge_def startLeaveRule_def
        stopLeaveRule_def case_prod_beta)

lemma sessions_reconcile [simp]:
  "Boss (reconcileStreakForNewDay now a) = Boss a"
  "Arena (reconcileStreakForNewDay now a) = Arena a"
  by (simp_all add: reconcileStreakForNewDay_def setStreak_def Let_def split: option.splits)

subsection \<open>The watcher's return path\<close>

lemma checkBack_fires:
  assumes "activeRule a = Some rule" "awayStart rule = Some s" "s \<noteq> 0"
    "thresholdMs rule \<le> now - s"
  shows "checkBack now a
           = onTrigger (rtype rule) (now - s) now (a\<lparr>activeRule := Some (rule\<lparr>awayStart := None\<rparr>)\<rparr>)"
  using assms by (simp add: checkBack_def truthy_num_def)

lemma checkBack_quiet:
  assumes "activeRule a = Some rule" "awayStart rule = Some s" "s \<noteq> 0"
    "now - s < thresholdMs rule"
  shows "checkBack now a = a\<lparr>activeRule := Some (rule\<lparr>awayStart := None\<rparr>)\<rparr>"
  using assms by (simp add: checkBack_def truthy_num_def)

lemma return_step: "is_return e \<Longrightarrow> step a (now, e) = checkBack now a"
  by (cases e) (auto simp: on_focus_def on_visibilitychange_def checkBack_def split: option.splits)

lemma activeRule_failChallenge:
  "activeRule (failChallenge now a) = activeRule a \<or> activeRule (failChallenge now a) = None"
  by (simp add: failChallenge_def stopLeaveRule_def case_prod_beta setTodayChallengeState_def)

lemma activeRule_arenaFail:
  "activeRule (arenaFail now a) = activeRule a \<or> activeRule (arenaFail now a) = None"
  by (simp add: arenaFail_def arena_history_add_def arenaStop_def stopLeaveRule_def Let_def)

lemma activeRule_onTrigger:
  "activeRule (onTrigger ty awayMs now a) = activeRule a
   \<or> activeRule (onTrigger ty awayMs now a) = None"
  using activeRule_failChallenge[of now a] activeRule_arenaFail[of now a]
  by (cases ty) (simp_all add: onTrigger_def bossHeal_def Let_def)

lemma no_away_checkBack:
  assumes h: "no_away a \<or> (\<exists>r s. activeRule a = Some r \<and> awayStart r = Some s \<and> s \<noteq> 0)"
  shows "no_away (checkBack now a)"
proof (cases "activeRule a")
  case None
  then show ?thesis by (simp add: checkBack_def no_away_def)
next
  case (Some rule)
  show ?thesis
  proof (cases "truthy_num (awayStart rule)")
    case False
    then have "checkBack now a = a" using Some by (simp add: checkBack_def)
    moreover have "no_away a" using h Some False by (auto simp: truthy_num_def)
    ultimately show ?thesis by simp
  next
    case True
    let ?a1 = "a\<lparr>activeRule := Some (rule\<lparr>awayStart := None\<rparr>)\<rparr>"
    have c: "checkBack now a = ?a1
             \<or> checkBack now a = onTrigger (rtype rule) (now - the (awayStart rule)) now ?a1"
      using Some True by (simp add: checkBack_def Let_def)
    have n1: "no_away ?a1" by (simp add: no_away_def)
    have "no_away (onTrigger (rtype rule) (now - the (awayStart rule)) now ?a1)"
      using activeRule_onTrigger[of "rtype rule" "now - the (awayStart rule)" now ?a1]
      by (auto simp: no_away_def)
    with c n1 show ?thesis by auto
  qed
qed

lemma fired_no_away: "no_away a \<Longrightarrow> fired now a = None"
  by (auto simp: fired_def no_away_def truthy_num_def split: option.splits)

lemma firings_no_away:
  "no_away a \<Longrightarrow> list_all (\<lambda>(t, e). is_return e) evs \<Longrightarrow> firings a evs = []"
proof (induction evs arbitrary: a)
  case Nil
  then show ?case by simp
next
  case (Cons x evs)
  obtain now e where x: "x = (now, e)" by (cases x)
  from Cons.prems x have r: "is_return e" and rest: "list_all (\<lambda>(t, e). is_return e) evs"
    by auto
  have "no_away (step a (now, e))"
    using no_away_checkBack[of a now] Cons.prems(1) by (simp add: return_step[OF r])
  from Cons.IH[OF this rest] show ?case
    using x r fired_no_away[OF Cons.prems(1)] by simp
qed

lemma floor_fifth: "\<lfloor>real_of_int n / 5\<rfloor> = n div 5"
  using floor_divide_of_int_eq[of n 5, where ?'a = real] by simp

subsection \<open>The boss heals\<close>

text \<open>
  Claim C2. A boss fight is running and its leave rule holds an away timestamp \<open>s\<close>
  (a number other than 0, which the code reads as no timestamp). When the page becomes
  visible or the window gains focus at \<open>now\<close>, at least the threshold after \<open>s\<close>, the
  remaining time becomes the smaller of the total and the remaining time plus the floor of
  0.20 times the total; the total is unchanged, the fight is still running and its rule is
  still the active one.
\<close>

theorem boss_heal_on_leave:
  assumes "activeRule a = Some rule" and "rtype rule = bossFight"
    and "awayStart rule = Some s" and "s \<noteq> 0" and "thresholdMs rule \<le> now - s"
    and "running (Boss a)"
    and "e = Focus \<or> e = VisibilityChange False"
  shows "remainingMs (Boss (step a (now, e)))
           = min (totalMs (Boss a))
               (remainingMs (Boss a) + \<lfloor>(0.20::real) * of_int (totalMs (Boss a))\<rfloor>)
         \<and> totalMs (Boss (step a (now, e))) = totalMs (Boss a)
         \<and> running (Boss (step a (now, e)))
         \<and> activeRule (step a (now, e)) = Some (rule\<lparr>awayStart := None\<rparr>)"
proof -
  have st: "step a (now, e) = checkBack now a"
    using assms(1,7) by (auto simp: on_focus_def on_visibilitychange_def)
  have "checkBack now a = bossHeal (a\<lparr>activeRule := Some (rule\<lparr>awayStart := None\<rparr>)\<rparr>)"
    using checkBack_fires[OF assms(1,3,4,5)] assms(2) by (simp add: onTrigger_def)
  then show ?thesis
    using assms(6) by (simp add: st bossHeal_def floor_fifth)
qed

text \<open>
  The two cases of the claim: 25 minutes in all, away for 20 seconds. With 100000 ms left
  the fight goes on with 400000 ms; with 1450000 ms left it goes on with 1500000 ms.
\<close>

theorem boss_heal_on_leave_witness:
  "remainingMs (Boss (step (boss_fight_at 100000 (Some 1000)) (21000, Focus))) = 400000
   \<and> remainingMs (Boss (step (boss_fight_at 1450000 (Some 1000)) (21000, VisibilityChange False)))
       = 1500000
   \<and> running (Boss (step (boss_fight_at 100000 (Some 1000)) (21000, Focus)))
   \<and> running (Boss (step (boss_fight_at 1450000 (Some 1000)) (21000, VisibilityChange False)))"
  using boss_heal_on_leave[of "boss_fight_at 100000 (Some 1000)"
          "\<lparr>rtype = bossFight, thresholdMs = 15000, awayStart = Some 1000\<rparr>" 1000 21000 Focus]
        boss_heal_on_leave[of "boss_fight_at 1450000 (Some 1000)"
          "\<lparr>rtype = bossFight, thresholdMs = 15000, awayStart = Some 1000\<rparr>" 1000 21000
          "VisibilityChange False"]
  by (simp add: boss_fight_at_def)

subsection \<open>The trigger fires once for a departure\<close>

text \<open>
  Claim C3. The active rule holds an away timestamp \<open>s\<close> (a number other than 0, which
  the code reads as no timestamp) and a return event arrives at \<open>now\<close>. If less than the
  threshold has passed since \<open>s\<close>, the callback is not called and the event only clears
  the timestamp. If at least the threshold has passed, the callback is called once, with
  \<open>now - s\<close>, on the state with the timestamp cleared. In both cases no return event
  that follows calls the callback, however many follow and whenever they arrive.
\<close>

theorem leave_trigger_once:
  assumes "activeRule a = Some rule" and "awayStart rule = Some s" and "s \<noteq> 0"
    and "is_return e" and "list_all (\<lambda>(t, e'). is_return e') evs"
  shows "(now - s < thresholdMs rule \<longrightarrow>
            firings a [(now, e)] = []
            \<and> step a (now, e) = a\<lparr>activeRule := Some (rule\<lparr>awayStart := None\<rparr>)\<rparr>)
       \<and> (thresholdMs rule \<le> now - s \<longrightarrow>
            firings a [(now, e)] = [now - s]
            \<and> step a (now, e)
                = onTrigger (rtype rule) (now - s) now
                    (a\<lparr>activeRule := Some (rule\<lparr>awayStart := None\<rparr>)\<rparr>))
       \<and> firings (step a (now, e)) evs = []"
proof -
  have f: "fired now a = (if thresholdMs rule \<le> now - s then Some (now - s) else None)"
    using assms(1-3) by (simp add: fired_def truthy_num_def)
  have na: "no_away (step a (now, e))"
    using no_away_checkBack[of a now] assms(1-3) by (auto simp: return_step[OF assms(4)])
  show ?thesis
    using f assms(4) checkBack_fires[OF assms(1-3), of now] checkBack_quiet[OF assms(1-3), of now]
      firings_no_away[OF na assms(5)]
    by (auto simp: return_step[OF assms(4)])
qed

text \<open>
  A boss fight left at 1000: a return at 21000 calls the callback once with 20000, a
  return at 5000 does not call it, and two more return events after either call nothing.
\<close>

theorem leave_trigger_once_witness:
  "firings (boss_fight_at 100000 (Some 1000)) [(21000, Focus)] = [20000]
   \<and> firings (step (boss_fight_at 100000 (Some 1000)) (21000, Focus))
        [(22000, VisibilityChange False), (40000, Focus)] = []
   \<and> firings (boss_fight_at 100000 (Some 1000)) [(5000, VisibilityChange False)] = []
   \<and> firings (step (boss_fight_at 100000 (Some 1000)) (5000, VisibilityChange False))
        [(22000, VisibilityChange False), (40000, Focus)] = []"
proof -
  let ?a = "boss_fight_at 100000 (Some 1000)"
  let ?rule = "\<lparr>rtype = bossFight, thresholdMs = 15000, awayStart = Some 1000\<rparr>"
  let ?evs = "[(22000, VisibilityChange False), (40000, Focus)]"
  have r: "activeRule ?a = Some ?rule" by (simp add: boss_fight_at_def)
  have s: "awayStart ?rule = Some 1000" by simp
  have nz: "(1000::int) \<noteq> 0" by simp
  have l: "list_all (\<lambda>(t, e'). is_return e') ?evs" by simp
  have late: "thresholdMs ?rule \<le> 21000 - 1000" by simp
  have early: "5000 - 1000 < thresholdMs ?rule" by simp
  have d: "(21000::int) - 1000 = 20000" by simp
  have f: "is_return Focus" and v: "is_return (VisibilityChange False)" by simp_all
  from leave_trigger_once[OF r s nz f l, of 21000] late
  have "firings ?a [(21000, Focus)] = [21000 - 1000]"
    and 1: "firings (step ?a (21000, Focus)) ?evs = []"
    by blast+
  then have 2: "firings ?a [(21000, Focus)] = [20000]" by (simp only: d)
  from leave_trigger_once[OF r s nz v l, of 5000] early
  have 3: "firings ?a [(5000, VisibilityChange False)] = []"
    and 4: "firings (step ?a (5000, VisibilityChange False)) ?evs = []"
    by blast+
  from 1 2 3 4 show ?thesis by blast
qed

subsection \<open>A hide event restarts the away timestamp\<close>

text \<open>
  Claim C4 says that no hide or blur event changes an away timestamp that is recorded.
  The blur handler keeps it (\<^verbatim>\<open>if (!rule.awayStart) rule.awayStart = Date.now()\<close>);
  the handler of \<^verbatim>\<open>visibilitychange\<close> overwrites it
  (\<^verbatim>\<open>if (document.hidden) rule.awayStart = Date.now()\<close>). The window loses focus at
  1000 and the page is hidden at 5000: the timestamp moves from 1000 to 5000, and a return
  at 17000, 16 seconds after the departure, calls no callback, where the timestamp of the
  departure would have called it with 16000.
\<close>

theorem hide_restarts_away_timestamp:
  "activeRule (run (boss_fight_at 1500000 None) [(1000, Blur)])
     = Some \<lparr>rtype = bossFight, thresholdMs = 15000, awayStart = Some 1000\<rparr>
   \<and> activeRule (run (boss_fight_at 1500000 None) [(1000, Blur), (5000, VisibilityChange True)])
     = Some \<lparr>rtype = bossFight, thresholdMs = 15000, awayStart = Some 5000\<rparr>
   \<and> fired 17000 (run (boss_fight_at 1500000 None) [(1000, Blur), (5000, VisibilityChange True)])
     = None
   \<and> fired 17000 (run (boss_fight_at 1500000 None) [(1000, Blur)]) = Some 16000"
  by (simp add: run_def boss_fight_at_def on_blur_def on_visibilitychange_def truthy_num_def
        fired_def)

text \<open>The two parts of the claim the code keeps: a blur keeps a recorded timestamp, and a
  return event with no timestamp changes nothing.\<close>

lemma blur_keeps_away:
  assumes "activeRule a = Some rule" "awayStart rule = Some s" "s \<noteq> 0"
  shows "on_blur now a = a"
  using assms by (simp add: on_blur_def truthy_num_def)

lemma return_without_away:
  assumes "activeRule a = None \<or> (\<exists>rule. activeRule a = Some rule \<and> awayStart rule = None)"
  shows "on_visibilitychange False now a = a" and "on_focus now a = a"
  using assms by (auto simp: checkBack_def on_visibilitychange_def on_focus_def truthy_num_def)

subsection \<open>The remaining time stays between zero and the total\<close>

lemma ok_bossTick: "sessions_ok a \<Longrightarrow> sessions_ok (bossTick now a)"
  by (auto simp: sessions_ok_def session_ok_def bossTick_def bossVictory_def bossStop_def
        stopLeaveRule_def Let_def)

lemma ok_arenaTick: "sessions_ok a \<Longrightarrow> sessions_ok (arenaTick now a)"
  by (auto simp: sessions_ok_def session_ok_def arenaTick_def arenaVictory_def arenaStop_def
        arena_history_add_def setArenaBadges_def stopLeaveRule_def Let_def)

lemma ok_bossHeal: "sessions_ok a \<Longrightarrow> sessions_ok (bossHeal a)"
  by (auto simp: sessions_ok_def session_ok_def bossHeal_def Let_def)

lemma ok_arenaFail: "sessions_ok a \<Longrightarrow> sessions_ok (arenaFail now a)"
  by (auto simp: sessions_ok_def session_ok_def arenaFail_def arenaStop_def
        arena_history_add_def stopLeaveRule_def Let_def)

lemma ok_onTrigger: "sessions_ok a \<Longrightarrow> sessions_ok (onTrigger ty awayMs now a)"
  using ok_bossHeal[of a] ok_arenaFail[of a now]
  by (cases ty) (simp_all add: onTrigger_def sessions_ok_def)

lemma ok_checkBack:
  assumes h: "sessions_ok a"
  shows "sessions_ok (checkBack now a)"
proof -
  have "\<And>r. sessions_ok (a\<lparr>activeRule := r\<rparr>)" using h by (simp add: sessions_ok_def)
  then show ?thesis
    using h ok_onTrigger by (simp add: checkBack_def Let_def split: option.splits)
qed

lemma ok_setDuration:
  "0 \<le> m \<Longrightarrow> sessions_ok a \<Longrightarrow> sessions_ok (bossSetDuration m a)"
  "0 \<le> m \<Longrightarrow> sessions_ok a \<Longrightarrow> sessions_ok (arenaSetDuration m a)"
  by (simp_all add: sessions_ok_def session_ok_def bossSetDuration_def arenaSetDuration_def
        minutesToMs_def)

lemma ok_step:
  assumes "sessions_ok a" and "case preset_minutes e of None \<Rightarrow> True | Some m \<Rightarrow> 0 \<le> m"
  shows "sessions_ok (step a (now, e))"
proof (cases e)
  case (VisibilityChange hidden)
  then show ?thesis using assms(1) ok_checkBack[OF assms(1), of now]
    by (simp add: on_visibilitychange_def sessions_ok_def split: option.splits)
next
  case Blur
  then show ?thesis using assms(1) by (simp add: on_blur_def sessions_ok_def split: option.splits)
next
  case Focus
  then show ?thesis using ok_checkBack[OF assms(1), of now] by (simp add: on_focus_def)
next
  case (BossPreset m)
  then show ?thesis using assms ok_setDuration(1)[of m a] by (simp add: bossPreset_def)
next
  case (BossStart tk)
  then show ?thesis using assms(1)
    by (simp add: bossStart_def startLeaveRule_def sessions_ok_def session_ok_def)
next
  case BossStop
  then show ?thesis using assms(1)
    by (simp add: bossStop_def stopLeaveRule_def sessions_ok_def session_ok_def)
next
  case BossTick
  then show ?thesis using ok_bossTick[OF assms(1)] by simp
next
  case (ArenaPreset m)
  then show ?thesis using assms ok_setDuration(2)[of m a] by (simp add: arenaPreset_def)
next
  case ArenaStart
  then show ?thesis using assms(1)
    by (simp add: arenaStart_def startLeaveRule_def sessions_ok_def session_ok_def)
next
  case ArenaStop
  then show ?thesis using assms(1)
    by (simp add: arenaStop_def stopLeaveRule_def sessions_ok_def session_ok_def)
next
  case ArenaTick
  then show ?thesis using ok_arenaTick[OF assms(1)] by simp
qed (use assms(1) in \<open>simp_all add: sessions_ok_def\<close>)

lemma ok_run: "sessions_ok a \<Longrightarrow> presets_ok evs \<Longrightarrow> sessions_ok (run a evs)"
proof (induction evs arbitrary: a)
  case Nil
  then show ?case by (simp add: run_def)
next
  case (Cons x evs)
  obtain now e where x: "x = (now, e)" by (cases x)
  have "sessions_ok (step a (now, e))"
    using Cons.prems x by (intro ok_step) (simp_all add: presets_ok_def)
  moreover have "presets_ok evs" using Cons.prems(2) by (simp add: presets_ok_def)
  ultimately have "sessions_ok (run (step a (now, e)) evs)" by (rule Cons.IH)
  then show ?case by (simp add: run_def x)
qed

lemma ok_boot: "sessions_ok (boot z now ls)"
  by (simp add: boot_def Let_def sessions_ok_def session_ok_def bossSetDuration_def
        arenaSetDuration_def minutesToMs_def initial_session_def)

text \<open>
  Claim C10. From the state \<^verbatim>\<open>boot\<close> leaves, whatever the stored data, after any
  sequence of events (preset clicks with a number of minutes that is not negative, starts,
  stops, countdown ticks, visibility and focus events with the heal or failure they set
  off, challenge actions), the remaining time of the boss fight and of the arena session
  is at least 0 and at most the total.
\<close>

theorem remaining_within_total:
  assumes "presets_ok evs"
  shows "0 \<le> remainingMs (Boss (run (boot z now ls) evs))
       \<and> remainingMs (Boss (run (boot z now ls) evs)) \<le> totalMs (Boss (run (boot z now ls) evs))
       \<and> 0 \<le> remainingMs (Arena (run (boot z now ls) evs))
       \<and> remainingMs (Arena (run (boot z now ls) evs)) \<le> totalMs (Arena (run (boot z now ls) evs))"
  using ok_run[OF ok_boot assms, of z now ls] by (simp add: sessions_ok_def session_ok_def)


theorem remaining_within_total_witness:
  "presets_ok example_events
   \<and> 0 \<le> remainingMs (Boss (run (boot 0 1700000000000 empty_storage) example_events))
   \<and> remainingMs (Boss (run (boot 0 1700000000000 empty_storage) example_events))
       \<le> totalMs (Boss (run (boot 0 1700000000000 empty_storage) example_events))
   \<and> 0 \<le> remainingMs (Arena (run (boot 0 1700000000000 empty_storage) example_events))
   \<and> remainingMs (Arena (run (boot 0 1700000000000 empty_storage) example_events))
       \<le> totalMs (Arena (run (boot 0 1700000000000 empty_storage) example_events))"
proof -
  have p: "presets_ok example_events" by (simp add: presets_ok_def example_events_def)
  from remaining_within_total[OF p, of 0 1700000000000 empty_storage] p show ?thesis by blast
qed

subsection \<open>The day key\<close>

text \<open>
  Claim C1 as stated fails on the build that keys the day to the local date: one hour
  before midnight UTC, a client at UTC and a client two hours east of it get different keys.
\<close>

theorem local_day_key_depends_on_offset:
  "localDayKey 0 82800000 \<noteq> localDayKey 7200000 82800000"
  by (simp add: local_key_utc local_key_east)

text \<open>
  Claim C1, amended. In the build with \<^verbatim>\<open>utcDayKey\<close> the key of an instant is the same
  for every client, whatever its offset from UTC; for an instant in the years 0000 to 9999
  it has 10 characters, the UTC year on four digits, the month and the day of the month on
  two, with dashes between, and two instants have the same key exactly when they fall on
  the same UTC day.
\<close>

theorem utc_day_key_global:
  "utcDayKey z1 t = utcDayKey z2 t
   \<and> (four_digit_year t \<longrightarrow>
        length (utcDayKey z1 t) = 10
        \<and> utcDayKey z1 t
            = iso_year (YearFromTime t) @ ''-'' @ pad2 (MonthFromTime t + 1) @ ''-''
                @ pad2 (DateFromTime t)
        \<and> parse_digits (take 4 (utcDayKey z1 t)) = Some (nat (YearFromTime t))
        \<and> parse_digits (take 2 (drop 5 (utcDayKey z1 t))) = Some (nat (MonthFromTime t + 1))
        \<and> parse_digits (take 2 (drop 8 (utcDayKey z1 t))) = Some (nat (DateFromTime t))
        \<and> (\<forall>t'. four_digit_year t' \<longrightarrow>
              (utcDayKey z2 t' = utcDayKey z1 t \<longleftrightarrow> Day t' = Day t)))"
proof -
  have a: "utcDayKey z1 t = utcDayKey z2 t" by (simp add: utcDayKey_def)
  have b: "four_digit_year t \<longrightarrow>
        length (utcDayKey z1 t) = 10
        \<and> utcDayKey z1 t
            = iso_year (YearFromTime t) @ ''-'' @ pad2 (MonthFromTime t + 1) @ ''-''
                @ pad2 (DateFromTime t)
        \<and> parse_digits (take 4 (utcDayKey z1 t)) = Some (nat (YearFromTime t))
        \<and> parse_digits (take 2 (drop 5 (utcDayKey z1 t))) = Some (nat (MonthFromTime t + 1))
        \<and> parse_digits (take 2 (drop 8 (utcDayKey z1 t))) = Some (nat (DateFromTime t))
        \<and> (\<forall>t'. four_digit_year t' \<longrightarrow>
              (utcDayKey z2 t' = utcDayKey z1 t \<longleftrightarrow> Day t' = Day t))"
  proof
    assume r: "four_digit_year t"
    note f = utcDayKey_fields[OF r]
    have t4: "take 4 (utcDayKey z1 t) = iso_year (YearFromTime t)"
      and t2: "take 2 (drop 5 (utcDayKey z1 t)) = pad2 (MonthFromTime t + 1)"
      and t2': "take 2 (drop 8 (utcDayKey z1 t)) = pad2 (DateFromTime t)"
      by (simp_all add: f(1)[of z1] f(2-4))
    have e: "\<forall>t'. four_digit_year t' \<longrightarrow>
              (utcDayKey z2 t' = utcDayKey z1 t \<longleftrightarrow> Day t' = Day t)"
      using utcDayKey_eq_iff[OF _ r] by blast
    show "length (utcDayKey z1 t) = 10
        \<and> utcDayKey z1 t
            = iso_year (YearFromTime t) @ ''-'' @ pad2 (MonthFromTime t + 1) @ ''-''
                @ pad2 (DateFromTime t)
        \<and> parse_digits (take 4 (utcDayKey z1 t)) = Some (nat (YearFromTime t))
        \<and> parse_digits (take 2 (drop 5 (utcDayKey z1 t))) = Some (nat (MonthFromTime t + 1))
        \<and> parse_digits (take 2 (drop 8 (utcDayKey z1 t))) = Some (nat (DateFromTime t))
        \<and> (\<forall>t'. four_digit_year t' \<longrightarrow>
              (utcDayKey z2 t' = utcDayKey z1 t \<longleftrightarrow> Day t' = Day t))"
      unfolding t4 t2 t2' using length_utcDayKey[OF r, of z1] f(1)[of z1] f(5-7) e by blast
  qed
  from a b show ?thesis by blast
qed

text \<open>
  14 November 2023, 22:13:20 UTC, seen from UTC and from 14 hours east of it (where the
  local date is already the 15th): the key is \<^verbatim>\<open>2023-11-14\<close> for both, 10 characters,
  and an instant of the next day has another key.
\<close>

theorem utc_day_key_global_witness:
  "four_digit_year 1700000000000
   \<and> utcDayKey 0 1700000000000 = ''2023-11-14''
   \<and> utcDayKey 50400000 1700000000000 = utcDayKey 0 1700000000000
   \<and> length (utcDayKey 50400000 1700000000000) = 10
   \<and> utcDayKey 0 1700086400000 \<noteq> utcDayKey 50400000 1700000000000"
proof -
  have r: "four_digit_year 1700000000000" and r': "four_digit_year 1700086400000"
    by (simp_all add: four_digit_year_def)
  have d: "Day 1700086400000 \<noteq> Day 1700000000000" by (simp add: Day_def msPerDay_def)
  from utc_day_key_global[of 50400000 1700000000000 0] r r' d key_nov_14[of 0]
  show ?thesis by blast
qed

subsection \<open>The stored streak\<close>

lemma digit_not_space: "is_digit c \<Longrightarrow> \<not> is_space c \<and> c \<noteq> CHR ''-'' \<and> c \<noteq> CHR ''+''"
  by (auto simp: is_digit_def is_space_def)

lemma parseInt10_digits:
  assumes "ds \<noteq> []" and "list_all is_digit ds"
  shows "parseInt10 ds = Some (int (digits_val ds))"
proof -
  obtain x xs where ds: "ds = x # xs" using assms(1) by (cases ds) auto
  have x: "is_digit x" using assms(2) ds by simp
  note n = digit_not_space[OF x]
  have d: "dropWhile is_space ds = ds" using n ds by simp
  have t: "takeWhile is_digit ds = ds" using assms(2) by (simp add: takeWhile_eq_all_conv list_all_iff)
  have s2: "(if ds \<noteq> [] \<and> (hd ds = CHR ''-'' \<or> hd ds = CHR ''+'') then tl ds else ds) = ds"
    using n ds by simp
  have neg: "\<not> (ds \<noteq> [] \<and> hd ds = CHR ''-'')" using n ds by simp
  show ?thesis
    unfolding parseInt10_def d Let_def s2 t using neg assms(1) by simp
qed

lemma parseInt10_String: "0 \<le> n \<Longrightarrow> parseInt10 (String n) = Some n"
  using parseInt10_digits[of "dec_nat (nat n)"] dec_nat_digits[of "nat n"]
  by (simp add: String_nonneg)

lemma String_not_empty: "0 \<le> n \<Longrightarrow> String n \<noteq> []"
  using dec_nat_digits[of "nat n"] by (simp add: String_nonneg)

lemma getStreak_setStreak: "getStreak (setStreak n a) = max 0 n"
proof -
  have "0 \<le> max 0 n" by simp
  from parseInt10_String[OF this] String_not_empty[OF this] show ?thesis
    by (simp add: getStreak_def setStreak_def truthy_str_def)
qed

lemma getStreak_LS: "LS a = LS b \<Longrightarrow> getStreak a = getStreak b"
  by (simp add: getStreak_def)

lemma diffDays_empty: "diffDays [] today = None"
  by (simp add: diffDays_def parse_date_utc_def)

subsection \<open>Reading the challenge state\<close>

lemma getToday_current:
  assumes "ls_todayState (LS a) = Some st" and "dayKey st = utcDayKey (tza a) now"
  shows "getTodayChallengeState now a = (st, a)"
  using assms by (simp add: getTodayChallengeState_def)

lemma getToday_stale:
  assumes "ls_todayState (LS a) = None
           \<or> (\<exists>s. ls_todayState (LS a) = Some s \<and> dayKey s \<noteq> utcDayKey (tza a) now)"
  shows "getTodayChallengeState now a = (fresh_state now a, saveTodayState (fresh_state now a) a)"
  using assms by (auto simp: getTodayChallengeState_def)

lemma tza_saveTodayState [simp]: "tza (saveTodayState s a) = tza a"
  by (simp add: saveTodayState_def)

lemma todayState_saveTodayState [simp]: "ls_todayState (LS (saveTodayState s a)) = Some s"
  by (simp add: saveTodayState_def)

text \<open>
  Claim C6. When the store holds no readable record, or a record of another day,
  \<^verbatim>\<open>getTodayChallengeState\<close> returns the record of a day not started (today's key, no
  start time, no result time, the challenge selected for today) and stores it in place of
  the old one; nothing of the old record is kept and nothing else changes.
\<close>

theorem day_rollover_resets:
  assumes "ls_todayState (LS a) = None
           \<or> (\<exists>s. ls_todayState (LS a) = Some s \<and> dayKey s \<noteq> utcDayKey (tza a) now)"
  shows "fst (getTodayChallengeState now a)
           = \<lparr>dayKey = utcDayKey (tza a) now, state = not_started, startedAt = None,
              resultAt = None, challengeId = getTodaysChallenge_id (tza a) now\<rparr>
       \<and> ls_todayState (LS (snd (getTodayChallengeState now a)))
           = Some (fst (getTodayChallengeState now a))
       \<and> snd (getTodayChallengeState now a)
           = a\<lparr>LS := (LS a)\<lparr>ls_todayState := Some (fst (getTodayChallengeState now a))\<rparr>\<rparr>"
  unfolding getToday_stale[OF assms] by (simp add: fresh_state_def saveTodayState_def)

subsection \<open>Completing the challenge\<close>

lemma recordCompletion_tza [simp]: "tza (recordCompletion d a) = tza a"
  by (simp add: recordCompletion_def setStreak_def Let_def)

lemma recordCompletion_todayState [simp]:
  "ls_todayState (LS (recordCompletion d a)) = ls_todayState (LS a)"
  by (simp add: recordCompletion_def setStreak_def Let_def)

lemma completeChallenge_running:
  assumes "ls_todayState (LS a) = Some st" and "dayKey st = utcDayKey (tza a) now"
    and "state st = in_progress"
  shows "completeChallenge now a
           = saveTodayState (st\<lparr>state := completed, resultAt := Some now\<rparr>)
               (recordCompletion (utcDayKey (tza a) now) (stopLeaveRule a))"
proof -
  let ?b = "recordCompletion (utcDayKey (tza a) now) (stopLeaveRule a)"
  have "ls_todayState (LS ?b) = Some st" "dayKey st = utcDayKey (tza ?b) now"
    using assms(1,2) by (simp_all add: stopLeaveRule_def)
  from getToday_current[OF this] show ?thesis
    by (simp add: completeChallenge_def getToday_current[OF assms(1,2)] assms(3)
          setTodayChallengeState_def)
qed

lemma LS_after_complete:
  assumes "ls_todayState (LS a) = Some st" and "dayKey st = utcDayKey (tza a) now"
    and "state st = in_progress"
  shows "ls_streak (LS (completeChallenge now a))
           = ls_streak (LS (recordCompletion (utcDayKey (tza a) now) a))"
    and "ls_lastStreakDay (LS (completeChallenge now a))
           = ls_lastStreakDay (LS (recordCompletion (utcDayKey (tza a) now) a))"
  unfolding completeChallenge_running[OF assms]
  by (simp_all add: saveTodayState_def recordCompletion_def stopLeaveRule_def setStreak_def
        getStreak_def Let_def)

lemma getStreak_streak: "ls_streak (LS a) = ls_streak (LS b) \<Longrightarrow> getStreak a = getStreak b"
  by (simp add: getStreak_def)

lemma recordCompletion_cases:
  "ls_lastStreakDay (LS (recordCompletion d a)) = Some d"
  "ls_lastStreakDay (LS a) = Some d \<Longrightarrow> recordCompletion d a = a"
  "ls_lastStreakDay (LS a) = Some l \<Longrightarrow> l \<noteq> d \<Longrightarrow> diffDays l d = Some 1 \<Longrightarrow>
     getStreak (recordCompletion d a) = max 0 (getStreak a + 1)"
  "ls_lastStreakDay (LS a) = Some l \<Longrightarrow> l \<noteq> d \<Longrightarrow> diffDays l d \<noteq> Some 1 \<Longrightarrow>
     getStreak (recordCompletion d a) = 1"
  "ls_lastStreakDay (LS a) = None \<Longrightarrow> getStreak (recordCompletion d a) = 1"
proof -
  show "ls_lastStreakDay (LS (recordCompletion d a)) = Some d"
    by (simp add: recordCompletion_def Let_def setStreak_def)
  show "ls_lastStreakDay (LS a) = Some d \<Longrightarrow> recordCompletion d a = a"
    by (simp add: recordCompletion_def Let_def)
  have g: "\<And>n b. getStreak ((setStreak n a)\<lparr>LS := (LS (setStreak n a))\<lparr>ls_lastStreakDay := b\<rparr>\<rparr>)
             = max 0 n"
  proof -
    fix n b
    have "getStreak ((setStreak n a)\<lparr>LS := (LS (setStreak n a))\<lparr>ls_lastStreakDay := b\<rparr>\<rparr>)
          = getStreak (setStreak n a)"
      by (rule getStreak_streak) simp
    then show "getStreak ((setStreak n a)\<lparr>LS := (LS (setStreak n a))\<lparr>ls_lastStreakDay := b\<rparr>\<rparr>)
             = max 0 n"
      by (simp only: getStreak_setStreak)
  qed
  show "ls_lastStreakDay (LS a) = Some l \<Longrightarrow> l \<noteq> d \<Longrightarrow> diffDays l d = Some 1 \<Longrightarrow>
     getStreak (recordCompletion d a) = max 0 (getStreak a + 1)"
    using diffDays_empty[of d] by (auto simp: recordCompletion_def Let_def g truthy_str_def)
  show "ls_lastStreakDay (LS a) = Some l \<Longrightarrow> l \<noteq> d \<Longrightarrow> diffDays l d \<noteq> Some 1 \<Longrightarrow>
     getStreak (recordCompletion d a) = 1"
    by (auto simp: recordCompletion_def Let_def g truthy_str_def)
  show "ls_lastStreakDay (LS a) = None \<Longrightarrow> getStreak (recordCompletion d a) = 1"
    by (auto simp: recordCompletion_def Let_def g truthy_str_def)
qed

text \<open>
  The build with \<^verbatim>\<open>utcDayKey\<close>. The challenge of the day \<open>D\<close> is in progress and is
  completed, and what is stored is what the program wrote (the last streak day is a key,
  the count is not negative and below \<open>2 ^ 53\<close>). Afterwards the last streak day is
  \<open>D\<close>. If it was \<open>D\<close> already, the stored count is unchanged. If it was the key of
  the UTC day before, the count goes up by 1. If it was the key of any other day, or there
  was none, the count becomes 1.
\<close>

lemma utc_streak_on_completion:
  assumes "ls_todayState (LS a) = Some st" and "dayKey st = utcDayKey (tza a) now"
    and "state st = in_progress" and "four_digit_year now"
  shows "ls_lastStreakDay (LS (completeChallenge now a)) = Some (utcDayKey (tza a) now)
       \<and> (ls_lastStreakDay (LS a) = Some (utcDayKey (tza a) now) \<longrightarrow>
            ls_streak (LS (completeChallenge now a)) = ls_streak (LS a))
       \<and> (\<forall>z t. ls_lastStreakDay (LS a) = Some (utcDayKey z t) \<and> four_digit_year t
               \<and> Day now = Day t + 1 \<and> 0 \<le> getStreak a \<and> getStreak a < 2 ^ 53 \<longrightarrow>
              getStreak (completeChallenge now a) = getStreak a + 1)
       \<and> (\<forall>z t. ls_lastStreakDay (LS a) = Some (utcDayKey z t) \<and> four_digit_year t
               \<and> Day now \<noteq> Day t \<and> Day now \<noteq> Day t + 1 \<longrightarrow>
              getStreak (completeChallenge now a) = 1)
       \<and> (ls_lastStreakDay (LS a) = None \<longrightarrow> getStreak (completeChallenge now a) = 1)"
proof -
  let ?D = "utcDayKey (tza a) now"
  note L = LS_after_complete[OF assms(1-3)]
  have g: "getStreak (completeChallenge now a) = getStreak (recordCompletion ?D a)"
    using L(1) by (rule getStreak_streak)
  have 1: "ls_lastStreakDay (LS (completeChallenge now a)) = Some ?D"
    unfolding L(2) by (rule recordCompletion_cases(1))
  have 2: "ls_lastStreakDay (LS a) = Some ?D \<longrightarrow>
            ls_streak (LS (completeChallenge now a)) = ls_streak (LS a)"
    unfolding L(1) using recordCompletion_cases(2)[of a ?D] by simp
  have 3: "getStreak (completeChallenge now a) = getStreak a + 1"
    if l: "ls_lastStreakDay (LS a) = Some (utcDayKey z t)" and r: "four_digit_year t"
      and d: "Day now = Day t + 1" and n: "0 \<le> getStreak a" for z t
  proof -
    have ne: "utcDayKey z t \<noteq> ?D" using utcDayKey_eq_iff[OF r assms(4), of z "tza a"] d by simp
    have gap: "diffDays (utcDayKey z t) ?D = Some 1"
      using diffDays_utcDayKey[OF r assms(4), of z "tza a"] d by simp
    from recordCompletion_cases(3)[OF l ne gap] n show ?thesis unfolding g by simp
  qed
  have 4: "getStreak (completeChallenge now a) = 1"
    if l: "ls_lastStreakDay (LS a) = Some (utcDayKey z t)" and r: "four_digit_year t"
      and d0: "Day now \<noteq> Day t" and d1: "Day now \<noteq> Day t + 1" for z t
  proof -
    have ne: "utcDayKey z t \<noteq> ?D" using utcDayKey_eq_iff[OF r assms(4), of z "tza a"] d0 by simp
    have gap: "diffDays (utcDayKey z t) ?D \<noteq> Some 1"
      using diffDays_utcDayKey[OF r assms(4), of z "tza a"] d1 by simp
    from recordCompletion_cases(4)[OF l ne gap] show ?thesis unfolding g .
  qed
  have 5: "ls_lastStreakDay (LS a) = None \<longrightarrow> getStreak (completeChallenge now a) = 1"
    unfolding g using recordCompletion_cases(5)[of a ?D] by blast
  from 1 2 3 4 5 show ?thesis by blast
qed

lemma getStreak_running: "getStreak (challenge_running l) = 3"
  by (simp add: getStreak_def challenge_running_def truthy_str_def parseInt10_def is_space_def
        is_digit_def digits_val_def digit_val_def)

text \<open>
  Completing the challenge of 15 November with a streak of 3: after a completion on the
  14th the streak is 4, after one on the 15th the stored count stays \<^verbatim>\<open>3\<close>, with no
  record it is 1; the last streak day is the 15th.
\<close>

lemma utc_streak_on_completion_example:
  "getStreak (completeChallenge 1700086400000 (challenge_running (Some ''2023-11-14''))) = 4
   \<and> ls_lastStreakDay (LS (completeChallenge 1700086400000 (challenge_running (Some ''2023-11-14''))))
       = Some ''2023-11-15''
   \<and> ls_streak (LS (completeChallenge 1700086400000 (challenge_running (Some ''2023-11-15''))))
       = Some ''3''
   \<and> getStreak (completeChallenge 1700086400000 (challenge_running None)) = 1"
proof -
  let ?now = "1700086400000::int"
  let ?st = "\<lparr>dayKey = ''2023-11-15'', state = in_progress, startedAt = Some 1700006400000,
              resultAt = None, challengeId = 5\<rparr>"
  have k: "\<And>l. utcDayKey (tza (challenge_running l)) ?now = ''2023-11-15''"
    by (simp add: key_nov_15)
  have h1: "\<And>l. ls_todayState (LS (challenge_running l)) = Some ?st"
    by (simp add: challenge_running_def)
  have h2: "\<And>l. dayKey ?st = utcDayKey (tza (challenge_running l)) ?now"
    by (simp add: k)
  have h3: "state ?st = in_progress" by simp
  have r: "four_digit_year ?now" "four_digit_year 1700000000000"
    by (simp_all add: four_digit_year_def)
  have l14: "ls_lastStreakDay (LS (challenge_running (Some ''2023-11-14'')))
             = Some (utcDayKey 0 1700000000000)"
    and l15: "ls_lastStreakDay (LS (challenge_running (Some ''2023-11-15''))) = Some ''2023-11-15''"
    and l0: "ls_lastStreakDay (LS (challenge_running None)) = None"
    and s15: "ls_streak (LS (challenge_running (Some ''2023-11-15''))) = Some ''3''"
    by (simp_all add: challenge_running_def key_nov_14)
  have d: "Day ?now = Day 1700000000000 + 1" by (simp add: Day_def msPerDay_def)
  have n: "0 \<le> getStreak (challenge_running (Some ''2023-11-14''))"
    "getStreak (challenge_running (Some ''2023-11-14'')) < 2 ^ 53"
    by (simp_all add: getStreak_running)
  note A = utc_streak_on_completion[OF h1 h2 h3 r(1), of "Some ''2023-11-14''", unfolded k]
  note B = utc_streak_on_completion[OF h1 h2 h3 r(1), of "Some ''2023-11-15''", unfolded k]
  note C = utc_streak_on_completion[OF h1 h2 h3 r(1), of None, unfolded k]
  have "getStreak (completeChallenge ?now (challenge_running (Some ''2023-11-14'')))
        = getStreak (challenge_running (Some ''2023-11-14'')) + 1"
    using A l14 r(2) d n by blast
  then have 1: "getStreak (completeChallenge ?now (challenge_running (Some ''2023-11-14''))) = 4"
    by (simp add: getStreak_running)
  have 2: "ls_lastStreakDay (LS (completeChallenge ?now (challenge_running (Some ''2023-11-14''))))
           = Some ''2023-11-15''"
    using A by blast
  have 3: "ls_streak (LS (completeChallenge ?now (challenge_running (Some ''2023-11-15''))))
           = Some ''3''"
    using B l15 s15 by simp
  have 4: "getStreak (completeChallenge ?now (challenge_running None)) = 1"
    using C l0 by blast
  from 1 2 3 4 show ?thesis by blast
qed

text \<open>
  The record of the 15th, in progress, read one day later: the record returned and stored
  is the one of the 16th, not started.
\<close>

theorem day_rollover_resets_witness:
  "state (fst (getTodayChallengeState 1700172800000 (challenge_running None))) = not_started
   \<and> dayKey (fst (getTodayChallengeState 1700172800000 (challenge_running None)))
       = utcDayKey 0 1700172800000
   \<and> startedAt (fst (getTodayChallengeState 1700172800000 (challenge_running None))) = None
   \<and> ls_todayState (LS (snd (getTodayChallengeState 1700172800000 (challenge_running None))))
       = Some (fst (getTodayChallengeState 1700172800000 (challenge_running None)))"
proof -
  let ?a = "challenge_running None"
  have r: "four_digit_year 1700086400000" "four_digit_year 1700172800000"
    by (simp_all add: four_digit_year_def)
  have "Day 1700086400000 \<noteq> Day 1700172800000" by (simp add: Day_def msPerDay_def)
  then have "utcDayKey 0 1700086400000 \<noteq> utcDayKey 0 1700172800000"
    using utcDayKey_eq_iff[OF r, of 0 0] by simp
  then have "\<exists>s. ls_todayState (LS ?a) = Some s \<and> dayKey s \<noteq> utcDayKey (tza ?a) 1700172800000"
    by (simp add: challenge_running_def key_nov_15)
  then have h: "ls_todayState (LS ?a) = None
           \<or> (\<exists>s. ls_todayState (LS ?a) = Some s \<and> dayKey s \<noteq> utcDayKey (tza ?a) 1700172800000)"
    by blast
  have z: "tza ?a = 0" by (simp add: challenge_running_def)
  from day_rollover_resets[OF h] show ?thesis by (simp add: z)
qed

subsection \<open>The streak at boot\<close>

text \<open>
  The build with \<^verbatim>\<open>utcDayKey\<close>, at boot, for an instant in the years 0000 to 9999:
  with no last streak day stored nothing changes; with the key of an instant \<open>t\<close> stored, the count is set to 0
  when the UTC day of \<open>now\<close> is two or more days after the UTC day of \<open>t\<close>, and
  nothing changes when it is less than two days after it (one day, the same day, or an
  earlier day).
\<close>

lemma utc_reconcile_streak:
  assumes "four_digit_year now"
  shows "(ls_lastStreakDay (LS a) = None \<longrightarrow> reconcileStreakForNewDay now a = a)
       \<and> (\<forall>z t. ls_lastStreakDay (LS a) = Some (utcDayKey z t) \<and> four_digit_year t \<longrightarrow>
             (2 \<le> Day now - Day t \<longrightarrow>
                reconcileStreakForNewDay now a = setStreak 0 a
                \<and> getStreak (reconcileStreakForNewDay now a) = 0
                \<and> ls_lastStreakDay (LS (reconcileStreakForNewDay now a)) = ls_lastStreakDay (LS a))
           \<and> (Day now - Day t < 2 \<longrightarrow> reconcileStreakForNewDay now a = a))"
proof -
  have 1: "ls_lastStreakDay (LS a) = None \<longrightarrow> reconcileStreakForNewDay now a = a"
    by (simp add: reconcileStreakForNewDay_def truthy_str_def)
  have 2: "(2 \<le> Day now - Day t \<longrightarrow>
                reconcileStreakForNewDay now a = setStreak 0 a
                \<and> getStreak (reconcileStreakForNewDay now a) = 0
                \<and> ls_lastStreakDay (LS (reconcileStreakForNewDay now a)) = ls_lastStreakDay (LS a))
           \<and> (Day now - Day t < 2 \<longrightarrow> reconcileStreakForNewDay now a = a)"
    if l: "ls_lastStreakDay (LS a) = Some (utcDayKey z t)" and r: "four_digit_year t" for z t
  proof -
    have ne: "utcDayKey z t \<noteq> []" using length_utcDayKey[OF r, of z] by auto
    have d: "diffDays (utcDayKey z t) (utcDayKey (tza a) now) = Some (Day now - Day t)"
      using r assms by (rule diffDays_utcDayKey)
    have e: "reconcileStreakForNewDay now a = (if 2 \<le> Day now - Day t then setStreak 0 a else a)"
      by (simp add: reconcileStreakForNewDay_def Let_def l truthy_str_def ne d)
    show ?thesis
      unfolding e using getStreak_setStreak[of 0 a] by (simp add: setStreak_def)
  qed
  from 1 2 show ?thesis by blast
qed

text \<open>
  The last completion was on 14 November 2023. A boot on the 15th leaves the streak of 3;
  a boot on the 16th sets it to 0.
\<close>

lemma utc_reconcile_streak_example:
  "reconcileStreakForNewDay 1700086400000 (challenge_running (Some ''2023-11-14''))
     = challenge_running (Some ''2023-11-14'')
   \<and> getStreak (reconcileStreakForNewDay 1700086400000 (challenge_running (Some ''2023-11-14''))) = 3
   \<and> getStreak (reconcileStreakForNewDay 1700172800000 (challenge_running (Some ''2023-11-14''))) = 0"
proof -
  let ?a = "challenge_running (Some ''2023-11-14'')"
  have r: "four_digit_year 1700000000000" "four_digit_year 1700086400000"
    "four_digit_year 1700172800000"
    by (simp_all add: four_digit_year_def)
  have l: "ls_lastStreakDay (LS ?a) = Some (utcDayKey 0 1700000000000)"
    by (simp add: challenge_running_def key_nov_14)
  have g1: "Day 1700086400000 - Day 1700000000000 < 2"
    and g2: "2 \<le> Day 1700172800000 - Day 1700000000000"
    by (simp_all add: Day_def msPerDay_def)
  from utc_reconcile_streak[OF r(2), of ?a] l r(1) g1
  have 1: "reconcileStreakForNewDay 1700086400000 ?a = ?a" by blast
  from utc_reconcile_streak[OF r(3), of ?a] l r(1) g2
  have 2: "getStreak (reconcileStreakForNewDay 1700172800000 ?a) = 0" by blast
  from 1 2 show ?thesis by (simp add: getStreak_running)
qed

subsection \<open>Actions outside a run\<close>

lemma getToday_result:
  "ls_todayState (LS (snd (getTodayChallengeState now a))) = Some (fst (getTodayChallengeState now a))
   \<and> dayKey (fst (getTodayChallengeState now a)) = utcDayKey (tza a) now
   \<and> tza (snd (getTodayChallengeState now a)) = tza a
   \<and> ls_streak (LS (snd (getTodayChallengeState now a))) = ls_streak (LS a)
   \<and> ls_lastStreakDay (LS (snd (getTodayChallengeState now a))) = ls_lastStreakDay (LS a)"
  by (simp add: getTodayChallengeState_def fresh_state_def saveTodayState_def split: option.splits)

lemma action_idle:
  assumes "ls_todayState (LS a) = Some st" and "dayKey st = utcDayKey (tza a) now"
    and "state st \<noteq> in_progress"
  shows "completeChallenge now a = a" and "failChallenge now a = a"
  using assms(3)
  by (simp_all add: completeChallenge_def failChallenge_def getToday_current[OF assms(1,2)])

lemma action_not_running:
  assumes "state (fst (getTodayChallengeState now a)) \<noteq> in_progress"
  shows "completeChallenge now a = snd (getTodayChallengeState now a)"
    and "failChallenge now a = snd (getTodayChallengeState now a)"
  using assms by (simp_all add: completeChallenge_def failChallenge_def case_prod_beta)

lemma after_complete:
  "\<exists>st. ls_todayState (LS (completeChallenge now a)) = Some st
        \<and> dayKey st = utcDayKey (tza (completeChallenge now a)) now
        \<and> state st \<noteq> in_progress"
proof (cases "state (fst (getTodayChallengeState now a)) = in_progress")
  case False
  show ?thesis
    unfolding action_not_running(1)[OF False] using getToday_result[of now a] False by simp
next
  case True
  let ?st = "fst (getTodayChallengeState now a)"
  let ?a1 = "snd (getTodayChallengeState now a)"
  note g = getToday_result[of now a]
  have c: "completeChallenge now a = completeChallenge now ?a1"
  proof -
    have "getTodayChallengeState now ?a1 = (?st, ?a1)"
      using g by (intro getToday_current) simp_all
    then show ?thesis
      using g by (simp add: completeChallenge_def case_prod_beta setTodayChallengeState_def)
  qed
  have "ls_todayState (LS ?a1) = Some ?st" "dayKey ?st = utcDayKey (tza ?a1) now"
    using g by simp_all
  from completeChallenge_running[OF this True]
  have e: "completeChallenge now ?a1
           = saveTodayState (?st\<lparr>state := completed, resultAt := Some now\<rparr>)
               (recordCompletion (utcDayKey (tza ?a1) now) (stopLeaveRule ?a1))" .
  have "dayKey ?st = take 10 (toISOString now)" using g by (simp add: utcDayKey_def)
  then show ?thesis
    unfolding c e by (simp add: utcDayKey_def)
qed

text \<open>
  Claim C8. The complete and fail actions return a state in every case (the model has no
  failure in them). When today's record is stored and is not in progress, both leave the
  whole state as it is. A complete or a fail that follows a complete on the same day
  changes nothing at all, whatever the state before the first one. When the record read
  is not in progress (it may be the fresh record of a new day), the action does what the
  read alone does, and the stored count and last streak day are as before.
\<close>

theorem action_outside_run_noop:
  "(\<forall>st. ls_todayState (LS a) = Some st \<and> dayKey st = utcDayKey (tza a) now
          \<and> state st \<noteq> in_progress \<longrightarrow>
        completeChallenge now a = a \<and> failChallenge now a = a)
   \<and> (utcDayKey (tza a) now2 = utcDayKey (tza a) now \<longrightarrow>
        completeChallenge now2 (completeChallenge now a) = completeChallenge now a
        \<and> failChallenge now2 (completeChallenge now a) = completeChallenge now a)
   \<and> (state (fst (getTodayChallengeState now a)) \<noteq> in_progress \<longrightarrow>
        completeChallenge now a = snd (getTodayChallengeState now a)
        \<and> failChallenge now a = snd (getTodayChallengeState now a)
        \<and> ls_streak (LS (completeChallenge now a)) = ls_streak (LS a)
        \<and> ls_lastStreakDay (LS (completeChallenge now a)) = ls_lastStreakDay (LS a))"
proof -
  have 1: "\<forall>st. ls_todayState (LS a) = Some st \<and> dayKey st = utcDayKey (tza a) now
          \<and> state st \<noteq> in_progress \<longrightarrow>
        completeChallenge now a = a \<and> failChallenge now a = a"
    using action_idle by blast
  have 2: "completeChallenge now2 (completeChallenge now a) = completeChallenge now a
        \<and> failChallenge now2 (completeChallenge now a) = completeChallenge now a"
    if k: "utcDayKey (tza a) now2 = utcDayKey (tza a) now"
  proof -
    obtain st where st: "ls_todayState (LS (completeChallenge now a)) = Some st"
      "dayKey st = utcDayKey (tza (completeChallenge now a)) now" "state st \<noteq> in_progress"
      using after_complete by blast
    have "utcDayKey (tza (completeChallenge now a)) now = utcDayKey (tza (completeChallenge now a)) now2"
      using k by (simp add: utcDayKey_def)
    with st(2) have "dayKey st = utcDayKey (tza (completeChallenge now a)) now2" by simp
    from action_idle[OF st(1) this st(3)] show ?thesis by simp
  qed
  have 3: "state (fst (getTodayChallengeState now a)) \<noteq> in_progress \<longrightarrow>
        completeChallenge now a = snd (getTodayChallengeState now a)
        \<and> failChallenge now a = snd (getTodayChallengeState now a)
        \<and> ls_streak (LS (completeChallenge now a)) = ls_streak (LS a)
        \<and> ls_lastStreakDay (LS (completeChallenge now a)) = ls_lastStreakDay (LS a)"
    using action_not_running[of now a] getToday_result[of now a] by simp
  from 1 2 3 show ?thesis by blast
qed

text \<open>
  The challenge of the 15th is completed at noon and the button is pressed again a second
  later: the second press changes nothing, and the streak stays at 4.
\<close>

theorem action_outside_run_noop_witness:
  "completeChallenge 1700049601000
     (completeChallenge 1700049600000 (challenge_running (Some ''2023-11-14'')))
     = completeChallenge 1700049600000 (challenge_running (Some ''2023-11-14''))
   \<and> failChallenge 1700049601000
     (completeChallenge 1700049600000 (challenge_running (Some ''2023-11-14'')))
     = completeChallenge 1700049600000 (challenge_running (Some ''2023-11-14''))"
proof -
  let ?a = "challenge_running (Some ''2023-11-14'')"
  have r: "four_digit_year 1700049601000" "four_digit_year 1700049600000"
    by (simp_all add: four_digit_year_def)
  have "Day 1700049601000 = Day 1700049600000" by (simp add: Day_def msPerDay_def)
  then have k: "utcDayKey (tza ?a) 1700049601000 = utcDayKey (tza ?a) 1700049600000"
    using utcDayKey_eq_iff[OF r] by simp
  from action_outside_run_noop[of ?a 1700049600000 1700049601000] k show ?thesis by blast
qed

subsection \<open>The daily seed\<close>

lemma unit_fraction:
  fixes w :: u32
  shows "0 \<le> (of_int (uint w) :: rat) / 4294967296 \<and> (of_int (uint w) :: rat) / 4294967296 < 1"
proof -
  define x :: rat where "x = of_int (uint w)"
  have "uint w < 4294967296" using uint_bounded[of w] by simp
  then have "(of_int (uint w) :: rat) < of_int 4294967296" by (simp only: of_int_less_iff)
  then have lt: "x < 4294967296" by (simp only: x_def of_int_numeral)
  have "0 \<le> uint w" by simp
  then have "(of_int 0 :: rat) \<le> of_int (uint w)" by (simp only: of_int_le_iff)
  then have ge: "0 \<le> x" by (simp only: x_def of_int_0)
  from lt ge have "0 \<le> x / 4294967296 \<and> x / 4294967296 < 1" by simp
  then show ?thesis by (simp only: x_def)
qed

lemma mulberry32_next_range: "0 \<le> snd (mulberry32_next a) \<and> snd (mulberry32_next a) < 1"
proof -
  have "\<exists>w :: u32. snd (mulberry32_next a) = of_int (uint w) / 4294967296"
    unfolding mulberry32_next_def Let_def snd_conv by blast
  then obtain w :: u32 where w: "snd (mulberry32_next a) = of_int (uint w) / 4294967296" ..
  show ?thesis unfolding w by (rule unit_fraction)
qed

lemma mulberry32_seq_range:
  "length (mulberry32_seq a n) = n \<and> (\<forall>x \<in> set (mulberry32_seq a n). 0 \<le> x \<and> x < 1)"
proof (induction n arbitrary: a)
  case 0
  then show ?case by simp
next
  case (Suc n)
  obtain a' x where nx: "mulberry32_next a = (a', x)" by (cases "mulberry32_next a")
  have "0 \<le> x \<and> x < 1" using mulberry32_next_range[of a] by (simp add: nx)
  with Suc[of a'] show ?case by (simp add: nx)
qed

text \<open>
  Claim C9. Two computations of the daily seed with the same salt, by any two clients at
  any two instants with the same day key (for instants in the years 0000 to 9999: on the
  same UTC day), give the same 32-bit value; the generators made from it return the same
  numbers, call after call, and so the same challenge and the same crowd size. Every
  number a generator returns is at least 0 and less than 1. The functions take the clock
  and the salt and nothing else: they read no stored state and write none.
\<close>

theorem seed_deterministic:
  "(utcDayKey z1 t1 = utcDayKey z2 t2
      \<or> (four_digit_year t1 \<and> four_digit_year t2 \<and> Day t1 = Day t2) \<longrightarrow>
        todaySeed z1 t1 salt = todaySeed z2 t2 salt
        \<and> mulberry32_seq (todaySeed z1 t1 salt) n = mulberry32_seq (todaySeed z2 t2 salt) n
        \<and> getTodaysChallenge_id z1 t1 = getTodaysChallenge_id z2 t2
        \<and> getTodaysCrowdNumber z1 t1 = getTodaysCrowdNumber z2 t2)
   \<and> length (mulberry32_seq (todaySeed z1 t1 salt) n) = n
   \<and> (\<forall>x \<in> set (mulberry32_seq (todaySeed z1 t1 salt) n). 0 \<le> x \<and> x < 1)"
proof -
  have "todaySeed z1 t1 salt = todaySeed z2 t2 salt
        \<and> mulberry32_seq (todaySeed z1 t1 salt) n = mulberry32_seq (todaySeed z2 t2 salt) n
        \<and> getTodaysChallenge_id z1 t1 = getTodaysChallenge_id z2 t2
        \<and> getTodaysCrowdNumber z1 t1 = getTodaysCrowdNumber z2 t2"
    if h: "utcDayKey z1 t1 = utcDayKey z2 t2
           \<or> (four_digit_year t1 \<and> four_digit_year t2 \<and> Day t1 = Day t2)"
  proof -
    have k: "utcDayKey z1 t1 = utcDayKey z2 t2"
      using h utcDayKey_eq_iff[of t1 t2 z1 z2] by blast
    have s: "todaySeed z1 t1 s' = todaySeed z2 t2 s'" for s'
      by (simp add: todaySeed_def k)
    show ?thesis
      by (simp add: s getTodaysChallenge_id_def getTodaysCrowdNumber_def)
  qed
  with mulberry32_seq_range[of "todaySeed z1 t1 salt" n] show ?thesis by blast
qed

lemma seed_nov_14: "todaySeed z 1700000000000 ''challenge'' = 3837204986"
  unfolding todaySeed_def key_nov_14 by (simp add: hash32_def)

lemma draws_nov_14:
  "mulberry32_seq 3837204986 2 = [1373511505 / 4294967296, 429744681 / 4294967296]"
  by code_simp

text \<open>
  14 November 2023: a client at UTC at 22:13:20 and a client 14 hours east of UTC half an
  hour later compute the same seed, 3837204986, and draw the same two numbers, both
  between 0 and 1.
\<close>

theorem seed_deterministic_witness:
  "todaySeed 0 1700000000000 ''challenge'' = todaySeed 50400000 1700001800000 ''challenge''
   \<and> todaySeed 50400000 1700001800000 ''challenge'' = 3837204986
   \<and> mulberry32_seq (todaySeed 50400000 1700001800000 ''challenge'') 2
       = [1373511505 / 4294967296, 429744681 / 4294967296]
   \<and> getTodaysChallenge_id 0 1700000000000 = getTodaysChallenge_id 50400000 1700001800000
   \<and> list_all (\<lambda>x. 0 \<le> x \<and> x < 1)
         (mulberry32_seq (todaySeed 0 1700000000000 ''challenge'') 2)"
proof -
  have r: "four_digit_year 1700000000000 \<and> four_digit_year 1700001800000
           \<and> Day 1700000000000 = Day 1700001800000"
    by (simp add: four_digit_year_def Day_def msPerDay_def)
  note T = seed_deterministic[of 0 1700000000000 50400000 1700001800000 "''challenge''" 2]
  from T r have e: "todaySeed 0 1700000000000 ''challenge''
                    = todaySeed 50400000 1700001800000 ''challenge''"
    and c: "getTodaysChallenge_id 0 1700000000000 = getTodaysChallenge_id 50400000 1700001800000"
    and b: "\<forall>x \<in> set (mulberry32_seq (todaySeed 0 1700000000000 ''challenge'') 2). 0 \<le> x \<and> x < 1"
    by blast+
  have v: "todaySeed 50400000 1700001800000 ''challenge'' = 3837204986"
    using e by (simp add: seed_nov_14)
  from b have b': "list_all (\<lambda>x. 0 \<le> x \<and> x < 1)
                     (mulberry32_seq (todaySeed 0 1700000000000 ''challenge'') 2)"
    by (simp only: list_all_iff)
  from e c b' v draws_nov_14 show ?thesis by simp
qed

subsection \<open>The streak across a change of clocks\<close>

text \<open>
  Midnights of 9, 10 and 11 March 2024, in UTC and in New York, where the clocks go
  forward on the 10th; an instant at noon in New York on the 11th.
\<close>

lemmas parse_eval = parse_date_utc_def parse_digits_def digits_val_def digit_val_def is_digit_def
  DaysInMonth_def leap_days_def InLeapYear_def MakeDay_def DayFromYear_def month_start_def
  msPerDay_def

lemma parse_march:
  "parse_date_utc ''2024-03-09T00:00:00Z'' = Some 1709942400000"
  "parse_date_utc ''2024-03-10T00:00:00Z'' = Some 1710028800000"
  "parse_date_utc ''2024-03-11T00:00:00Z'' = Some 1710115200000"
  by (simp_all add: parse_eval)

lemma local_midnights:
  "parse_date_local new_york ''2024-03-09T00:00:00'' = Some 1709960400000"
  "parse_date_local new_york ''2024-03-10T00:00:00'' = Some 1710046800000"
  "parse_date_local new_york ''2024-03-11T00:00:00'' = Some 1710129600000"
  by (simp_all add: parse_date_local_def parse_march new_york_def)

lemma local_gaps:
  "diffDays_local new_york ''2024-03-09'' ''2024-03-11'' = Some 1"
  "diffDays_local new_york ''2024-03-10'' ''2024-03-11'' = Some 0"
  by (simp_all add: diffDays_local_def local_midnights)

lemma utc_gaps:
  "diffDays ''2024-03-09'' ''2024-03-11'' = Some 2"
  "diffDays ''2024-03-10'' ''2024-03-11'' = Some 1"
  by (simp_all add: diffDays_def parse_march)

lemma key_march_11_local: "localDayKey_now new_york 1710172800000 = ''2024-03-11''"
proof -
  have o: "offset_at_utc new_york 1710172800000 = - 14400000" by (simp add: new_york_def)
  have d: "Day 1710158400000 = 19793" by (simp add: Day_def msPerDay_def)
  have "DayFromYear 2024 \<le> Day 1710158400000" "Day 1710158400000 < DayFromYear (2024 + 1)"
    by (simp_all add: d DayFromYear_def)
  note f = fields_at[OF this]
  have w: "DayWithinYear 1710158400000 = 70" by (simp add: f(2) d DayFromYear_def)
  have l: "leap_days 2024 = 1" by (simp add: leap_days_def InLeapYear_def)
  have m: "MonthFromTime 1710158400000 = 2" by (simp add: MonthFromTime_def f(1) w l)
  have dt: "DateFromTime 1710158400000 = 11"
    by (simp add: DateFromTime_def f(1) w l m month_start_def)
  show ?thesis
    by (simp add: localDayKey_now_def o localDayKey_def getFullYear_def getMonth_def getDate_def
          LocalTime_def f(1) m dt text_eval)
qed

lemma key_march_11_utc: "utcDayKey z 1710172800000 = ''2024-03-11''"
proof -
  have d: "Day 1710172800000 = 19793" by (simp add: Day_def msPerDay_def)
  have "DayFromYear 2024 \<le> Day 1710172800000" "Day 1710172800000 < DayFromYear (2024 + 1)"
    by (simp_all add: d DayFromYear_def)
  note f = fields_at[OF this]
  have w: "DayWithinYear 1710172800000 = 70" by (simp add: f(2) d DayFromYear_def)
  have l: "leap_days 2024 = 1" by (simp add: leap_days_def InLeapYear_def)
  have m: "MonthFromTime 1710172800000 = 2" by (simp add: MonthFromTime_def f(1) w l)
  have dt: "DateFromTime 1710172800000 = 11"
    by (simp add: DateFromTime_def f(1) w l m month_start_def)
  show ?thesis by (simp add: utcDayKey_def toISOString_def f(1) m dt text_eval)
qed

lemma getStreak_march: "getStreak (march_streak l) = 3"
  by (simp add: getStreak_def march_streak_def truthy_str_def parseInt10_def is_space_def
        is_digit_def digits_val_def digit_val_def)

lemma setToday_local_keeps:
  "ls_streak (LS (snd (setTodayChallengeState_local z now p x))) = ls_streak (LS x)"
  "ls_lastStreakDay (LS (snd (setTodayChallengeState_local z now p x))) = ls_lastStreakDay (LS x)"
  by (simp_all add: setTodayChallengeState_local_def getTodayChallengeState_local_def
        saveTodayState_def Let_def case_prod_beta split: option.splits)

text \<open>
  Claim C7 says that the reconciliation at boot sets the count to 0 when the last streak
  day is two or more days behind today. The build that parses the keys as local midnights
  misses it across a change of clocks: its own comment reads \<^verbatim>\<open>If last day is older
  than yesterday, break streak\<close>, but in New York the midnights of 9 March and 11 March
  2024 are 47 hours apart and the floor of their distance in days is 1. A boot at noon on
  11 March, with the last completion on the 9th, leaves the state as it is, the streak at
  3, although the 10th was missed. The build with \<^verbatim>\<open>utcDayKey\<close> sets the count to 0
  on the same data.
\<close>

theorem local_reconcile_misses_a_day:
  "localDayKey_now new_york 1710172800000 = ''2024-03-11''
   \<and> diffDays_local new_york ''2024-03-09'' ''2024-03-11'' = Some 1
   \<and> reconcileStreakForNewDay_local new_york 1710172800000 (march_streak ''2024-03-09'')
       = march_streak ''2024-03-09''
   \<and> getStreak (reconcileStreakForNewDay_local new_york 1710172800000 (march_streak ''2024-03-09''))
       = 3
   \<and> getStreak (reconcileStreakForNewDay 1710172800000 (march_streak ''2024-03-09'')) = 0"
proof -
  have 1: "reconcileStreakForNewDay_local new_york 1710172800000 (march_streak ''2024-03-09'')
           = march_streak ''2024-03-09''"
    by (simp add: reconcileStreakForNewDay_local_def key_march_11_local local_gaps Let_def
          truthy_str_def march_streak_def)
  have "reconcileStreakForNewDay 1710172800000 (march_streak ''2024-03-09'')
        = setStreak 0 (march_streak ''2024-03-09'')"
    by (simp add: reconcileStreakForNewDay_def key_march_11_utc utc_gaps Let_def
          truthy_str_def march_streak_def)
  then have 2: "getStreak (reconcileStreakForNewDay 1710172800000 (march_streak ''2024-03-09'')) = 0"
    by (simp add: getStreak_setStreak)
  from 1 2 show ?thesis by (simp add: key_march_11_local local_gaps getStreak_march)
qed

text \<open>
  Claim C5 says that a completion one day after the last one adds 1 to the count. The
  build that parses the keys as local midnights misses it across a change of clocks: its
  own comment reads \<^verbatim>\<open>if last was yesterday -> increment, else reset to 1\<close>, but in
  New York the midnights of 10 March and 11 March 2024 are 23 hours apart and the floor of
  their distance in days is 0. Completing the challenge at noon on 11 March, with a streak
  of 3 and the last completion on the 10th, stores the count 1. The build with
  \<^verbatim>\<open>utcDayKey\<close> gives 4 on the same data.
\<close>

theorem local_completion_resets_streak:
  "localDayKey_now new_york 1710172800000 = ''2024-03-11''
   \<and> diffDays_local new_york ''2024-03-10'' ''2024-03-11'' = Some 0
   \<and> ls_streak (LS (completeChallenge_local new_york 1710172800000 (march_streak ''2024-03-10'')))
       = Some ''1''
   \<and> ls_lastStreakDay (LS (completeChallenge_local new_york 1710172800000
                              (march_streak ''2024-03-10''))) = Some ''2024-03-11''
   \<and> getStreak (completeChallenge 1710172800000 (march_streak ''2024-03-10'')) = 4"
proof -
  let ?a = "march_streak ''2024-03-10''"
  let ?st = "\<lparr>dayKey = ''2024-03-11'', state = in_progress, startedAt = Some 1710165600000,
              resultAt = None, challengeId = 5\<rparr>"
  let ?b = "recordCompletion_local new_york ''2024-03-11'' (stopLeaveRule ?a)"
  have g: "getTodayChallengeState_local new_york 1710172800000 ?a = (?st, ?a)"
    by (simp add: getTodayChallengeState_local_def key_march_11_local march_streak_def Let_def)
  have c: "completeChallenge_local new_york 1710172800000 ?a
           = snd (setTodayChallengeState_local new_york 1710172800000
                    (\<lambda>r. r\<lparr>state := completed, resultAt := Some 1710172800000\<rparr>) ?b)"
    by (simp add: completeChallenge_local_def g key_march_11_local)
  have l: "ls_lastStreakDay (LS (stopLeaveRule ?a)) = Some ''2024-03-10''"
    by (simp add: stopLeaveRule_def march_streak_def)
  have r1: "ls_streak (LS ?b) = Some ''1''" and r2: "ls_lastStreakDay (LS ?b) = Some ''2024-03-11''"
    by (simp_all add: recordCompletion_local_def Let_def l local_gaps truthy_str_def
          setStreak_def text_eval)
  have 1: "ls_streak (LS (completeChallenge_local new_york 1710172800000 ?a)) = Some ''1''"
    unfolding c setToday_local_keeps by (rule r1)
  have 2: "ls_lastStreakDay (LS (completeChallenge_local new_york 1710172800000 ?a))
            = Some ''2024-03-11''"
    unfolding c setToday_local_keeps by (rule r2)
  have h: "ls_todayState (LS ?a) = Some ?st"
    by (simp add: march_streak_def)
  have "getStreak (completeChallenge 1710172800000 ?a)
        = getStreak (recordCompletion (utcDayKey (tza ?a) 1710172800000) ?a)"
    by (rule getStreak_streak, rule LS_after_complete(1)[OF h]) (simp_all add: key_march_11_utc)
  also have "\<dots> = max 0 (getStreak ?a + 1)"
    unfolding key_march_11_utc
    by (rule recordCompletion_cases(3)[of _ "''2024-03-10''"])
       (simp_all add: march_streak_def utc_gaps)
  finally have 3: "getStreak (completeChallenge 1710172800000 ?a) = 4"
    by (simp add: getStreak_march)
  from 1 2 3 show ?thesis by (simp add: key_march_11_local local_gaps)
qed

end
